theory Spec2Isabelle
  imports
    Main
    "HOL-Library.Word"
    "HOL-Library.Char_ord"
    "HOL-Library.List_Lexorder"
    "HOL-Library.Sublist"
begin

chapter \<open>The Kubernetes ingress provider (pkg/provider/kubernetes/ingress/kubernetes.go)\<close>

section \<open>Cluster objects read through the client\<close>

text \<open>
  The Go structs of \<^verbatim>\<open>k8s.io/api\<close> that the provider reads, reduced to the fields
  the provider touches. A Go pointer that may be nil is an \<open>option\<close>; a Go map is a
  partial function; \<^verbatim>\<open>int32\<close> is a 32-bit word read as signed.
\<close>

type_synonym int32 = "32 word"

datatype intstr_Type = intstr_Int | intstr_String

record IntOrString =
  Type :: intstr_Type
  IntVal :: int32
  StrVal :: string

record IngressBackend =
  ServiceName :: string
  ServicePort :: IntOrString

record HTTPIngressPath =
  Path :: string
  Backend :: IngressBackend

text \<open>
  \<^verbatim>\<open>IngressRule.HTTP\<close> is a pointer \<^verbatim>\<open>*HTTPIngressRuleValue\<close>, whose only field
  is \<^verbatim>\<open>Paths\<close>: \<open>None\<close> is the nil pointer, \<open>Some paths\<close> the list of paths.
\<close>

record IngressRule =
  Host :: string
  HTTP :: "HTTPIngressPath list option"

record IngressTLS =
  SecretName :: string

record Ingress =
  Name :: string
  Namespace :: string
  Annotations :: "string \<rightharpoonup> string"
  SpecBackend :: "IngressBackend option"
  SpecTLS :: "IngressTLS list"
  SpecRules :: "IngressRule list"

record ServicePort =
  sp_Name :: string
  sp_Port :: int32

record LoadBalancerIngress =
  lb_IP :: string
  lb_Hostname :: string

text \<open>
  \<^verbatim>\<open>Status.LoadBalancer.Ingress\<close> is a slice that the code compares with nil before it
  reads element 0: \<open>None\<close> is the nil slice, \<open>Some []\<close> an empty slice that is not nil.
\<close>

record Service =
  SpecPorts :: "ServicePort list"
  SpecType :: string
  SpecExternalName :: string
  StatusLoadBalancerIngress :: "LoadBalancerIngress list option"

record EndpointPort =
  ep_Name :: string
  ep_Port :: int32

record EndpointSubset =
  Addresses :: "string list"
  Ports :: "EndpointPort list"

record Endpoints =
  Subsets :: "EndpointSubset list"

record Secret =
  Data :: "string \<rightharpoonup> string"

section \<open>Errors, panics and the observable trace\<close>

text \<open>
  One constructor for each error the file creates with \<^verbatim>\<open>errors.New\<close> or
  \<^verbatim>\<open>fmt.Errorf\<close>, and \<open>ClientError\<close> for an error returned by the client.
\<close>

datatype error =
    ClientError string
  | ServiceNotFound
  | ServicePortNotFound
  | EndpointsNotFound
  | SubsetNotFound
  | CannotDefineAPort
  | FailedToFetchSecret string string error
  | SecretDoesNotExist string string
  | MissingTLSDataEntries string string "string list"
  | EmptyTLSDataEntries string string "string list"
  | EndpointUndefined
  | InvalidPublishedServiceFormat string
  | CannotGetService string error
  | MissingService string
  | UnquoteSyntaxError

text \<open>The two run-time panics the translation can raise.\<close>

datatype panic = NilPointerDereference | IndexOutOfRange

datatype log_entry =
    ErrorConfiguringTLS error
  | DefaultBackendAlreadyExists
  | CannotCreateService string string error
  | InvalidSyntaxForHost string
  | InvalidSyntaxForPath string
  | ErrorWhileUpdatingIngressStatus error
  | SkippingTLSSubSection
  | SkippingUpdatingIngress string string string

text \<open>
  What a run does besides computing its result, in the order it happens: log lines, the
  calls of \<^verbatim>\<open>GetSecret\<close>, each invocation of \<^verbatim>\<open>updateIngressStatus\<close> (namespace and
  name of the ingress) and the status writes sent to the cluster.
\<close>

datatype event =
    Log log_entry
  | GetSecretCall string string
  | StatusReconcile string string
  | UpdateIngressStatusCall string string string string

text \<open>
  The \<^verbatim>\<open>Client\<close> interface. Each getter returns \<^verbatim>\<open>(object, exists, err)\<close>:
  \<open>Inl err\<close>, \<open>Inr None\<close> (does not exist) or \<open>Inr (Some object)\<close>.
\<close>

record Client =
  GetIngresses :: "Ingress list"
  GetService :: "string \<Rightarrow> string \<Rightarrow> error + Service option"
  GetEndpoints :: "string \<Rightarrow> string \<Rightarrow> error + Endpoints option"
  GetSecret :: "string \<Rightarrow> string \<Rightarrow> error + Secret option"
  UpdateIngressStatus :: "string \<Rightarrow> string \<Rightarrow> string \<Rightarrow> string \<Rightarrow> error option"

section \<open>Provider settings and the produced configuration\<close>

record Router =
  Rule :: string
  Priority :: int
  RouterService :: string

text \<open>\<^verbatim>\<open>config.Service\<close> with its \<^verbatim>\<open>LoadBalancer\<close>: the server URLs and the flag.\<close>

record LoadBalancerService =
  Servers :: "string list"
  PassHostHeader :: bool

record Certificate =
  CertFile :: string
  KeyFile :: string

text \<open>
  \<^verbatim>\<open>config.Configuration\<close>: the routers and services of \<^verbatim>\<open>HTTP\<close> and the
  certificates of \<^verbatim>\<open>TLS\<close>, which stays nil (\<open>None\<close>) when there is no certificate.
  \<^verbatim>\<open>HTTP.Middlewares\<close> and \<^verbatim>\<open>TCP\<close> are always empty and are left out.
\<close>

record Configuration =
  HTTPRouters :: "string \<rightharpoonup> Router"
  HTTPServices :: "string \<rightharpoonup> LoadBalancerService"
  TLS :: "Certificate list option"

record Message =
  ProviderName :: string
  MessageConfiguration :: Configuration

record EndpointIngress =
  IP :: string
  Hostname :: string
  PublishedService :: string

record Provider =
  IngressClass :: string
  IngressEndpoint :: "EndpointIngress option"
  lastConfiguration :: "Configuration option"

section \<open>Library functions of Go used by the file\<close>

definition annotationKubernetesIngressClass :: string where
  "annotationKubernetesIngressClass = ''kubernetes.io/ingress.class''"

definition traefikDefaultIngressClass :: string where
  "traefikDefaultIngressClass = ''traefik''"

definition ServiceTypeExternalName :: string where
  "ServiceTypeExternalName = ''ExternalName''"

definition MinInt32 :: int where
  "MinInt32 = - 2147483648"

text \<open>Reading a Go map of strings: a missing key gives the empty string.\<close>

definition lookup_string :: "(string \<rightharpoonup> string) \<Rightarrow> string \<Rightarrow> string" where
  "lookup_string m k = (case m k of None \<Rightarrow> [] | Some v \<Rightarrow> v)"

text \<open>Decimal printing, \<^verbatim>\<open>strconv.Itoa\<close> and the verb \<^verbatim>\<open>%d\<close>.\<close>

fun nat_digits :: "nat \<Rightarrow> string" where
  "nat_digits n =
     (if n < 10 then [''0123456789'' ! n]
      else nat_digits (n div 10) @ [''0123456789'' ! (n mod 10)])"

declare nat_digits.simps [simp del]

definition Itoa :: "int \<Rightarrow> string" where
  "Itoa i = (if i < 0 then CHR ''-'' # nat_digits (nat (- i)) else nat_digits (nat i))"

text \<open>\<^verbatim>\<open>IntOrString.String()\<close>: the string value, or the integer value in decimal.\<close>

definition IntOrString_String :: "IntOrString \<Rightarrow> string" where
  "IntOrString_String v =
     (if Type v = intstr_String then StrVal v else Itoa (sint (IntVal v)))"

text \<open>
  \<^verbatim>\<open>strings.ReplaceAll(s, ".", "-")\<close> and \<^verbatim>\<open>strings.Replace(s, ".", "-", -1)\<close>: both
  call sites replace the one-byte string \<^verbatim>\<open>.\<close> by the one-byte string \<^verbatim>\<open>-\<close>, which
  is a replacement byte by byte.
\<close>

definition ReplaceAll :: "string \<Rightarrow> char \<Rightarrow> char \<Rightarrow> string" where
  "ReplaceAll s old new = map (\<lambda>c. if c = old then new else c) s"

fun Join :: "string list \<Rightarrow> string \<Rightarrow> string" where
  "Join [] sep = []"
| "Join [x] sep = x"
| "Join (x # y # ys) sep = x @ sep @ Join (y # ys) sep"

text \<open>\<^verbatim>\<open>strings.Split(s, "/")\<close> for a one-byte separator.\<close>

fun Split :: "string \<Rightarrow> char \<Rightarrow> string list" where
  "Split [] sep = [[]]"
| "Split (c # cs) sep =
     (if c = sep then [] # Split cs sep
      else (case Split cs sep of [] \<Rightarrow> [[c]] | x # xs \<Rightarrow> (c # x) # xs))"

definition HasPrefix :: "string \<Rightarrow> string \<Rightarrow> bool" where
  "HasPrefix s pre = prefix pre s"

text \<open>
  \<^verbatim>\<open>strconv.Unquote\<close> belongs to Go's library; the functions below take it as the
  parameter \<open>Unquote\<close>.
\<close>

type_synonym unquote = "string \<Rightarrow> error + string"

definition checkStringQuoteValidity :: "unquote \<Rightarrow> string \<Rightarrow> error option" where
  "checkStringQuoteValidity Unquote v =
     (case Unquote ([CHR 0x22] @ v @ [CHR 0x22]) of Inl err \<Rightarrow> Some err | Inr _ \<Rightarrow> None)"

section \<open>loadService\<close>

text \<open>The loop over \<^verbatim>\<open>service.Spec.Ports\<close>: the first port that the backend selects.\<close>

fun matchServicePort :: "IngressBackend \<Rightarrow> ServicePort list \<Rightarrow> ServicePort option" where
  "matchServicePort backend [] = None"
| "matchServicePort backend (p # ps) =
     (if (Type (ServicePort backend) = intstr_Int \<and> IntVal (ServicePort backend) = sp_Port p) \<or>
         (Type (ServicePort backend) = intstr_String \<and> StrVal (ServicePort backend) = sp_Name p)
      then Some p
      else matchServicePort backend ps)"

text \<open>
  The inner loop over \<^verbatim>\<open>subset.Ports\<close>. It assigns the variable \<^verbatim>\<open>port\<close> at the
  first entry named \<open>portName\<close> and leaves it as it was when there is none.
\<close>

fun subsetPort :: "string \<Rightarrow> int32 \<Rightarrow> EndpointPort list \<Rightarrow> int32" where
  "subsetPort portName port [] = port"
| "subsetPort portName port (p # ps) =
     (if portName = ep_Name p then ep_Port p else subsetPort portName port ps)"

text \<open>
  The loop over \<^verbatim>\<open>endpoints.Subsets\<close>. The variable \<^verbatim>\<open>port\<close> is declared before the
  loop, so each iteration starts from the value the previous one left.
\<close>

fun loadSubsets :: "string \<Rightarrow> int32 \<Rightarrow> string list \<Rightarrow> EndpointSubset list \<Rightarrow> error + string list" where
  "loadSubsets portName port servers [] = Inr servers"
| "loadSubsets portName port servers (sub # subsets) =
     (let port' = subsetPort portName port (Ports sub) in
      if port' = 0 then Inl CannotDefineAPort
      else
        let protocol = (if port' = 443 \<or> HasPrefix portName ''https'' then ''https'' else ''http'') in
        loadSubsets portName port'
          (servers @ map (\<lambda>addr. protocol @ ''://'' @ addr @ '':'' @ Itoa (sint port')) (Addresses sub))
          subsets)"

definition loadService :: "Client \<Rightarrow> string \<Rightarrow> IngressBackend \<Rightarrow> error + LoadBalancerService" where
  "loadService client namespace backend =
     (case GetService client namespace (ServiceName backend) of
        Inl err \<Rightarrow> Inl err
      | Inr None \<Rightarrow> Inl ServiceNotFound
      | Inr (Some service) \<Rightarrow>
          (case matchServicePort backend (SpecPorts service) of
             None \<Rightarrow> Inl ServicePortNotFound
           | Some portSpec \<Rightarrow>
               if SpecType service = ServiceTypeExternalName then
                 Inr \<lparr>Servers = [''http://'' @ SpecExternalName service @ '':'' @ Itoa (sint (sp_Port portSpec))],
                      PassHostHeader = True\<rparr>
               else
                 (case GetEndpoints client namespace (ServiceName backend) of
                    Inl endpointsErr \<Rightarrow> Inl endpointsErr
                  | Inr None \<Rightarrow> Inl EndpointsNotFound
                  | Inr (Some endpoints) \<Rightarrow>
                      if length (Subsets endpoints) = 0 then Inl SubsetNotFound
                      else
                        (case loadSubsets (sp_Name portSpec) 0 [] (Subsets endpoints) of
                           Inl err \<Rightarrow> Inl err
                         | Inr servers \<Rightarrow> Inr \<lparr>Servers = servers, PassHostHeader = True\<rparr>))))"

section \<open>shouldProcessIngress\<close>

definition shouldProcessIngress :: "string \<Rightarrow> string \<Rightarrow> bool" where
  "shouldProcessIngress ingressClass ingressClassAnnotation =
     (ingressClass = ingressClassAnnotation \<or>
      (length ingressClass = 0 \<and> ingressClassAnnotation = traefikDefaultIngressClass))"

section \<open>TLS: getCertificateBlocks, getTLS, getTLSConfig\<close>

definition getCertificateBlocks :: "Secret \<Rightarrow> string \<Rightarrow> string \<Rightarrow> error + (string \<times> string)" where
  "getCertificateBlocks secret namespace secretName =
     (let missingEntries = (if Data secret ''tls.crt'' = None then [''tls.crt''] else []);
          missingEntries = missingEntries @ (if Data secret ''tls.key'' = None then [''tls.key''] else [])
      in
      if length missingEntries > 0 then Inl (MissingTLSDataEntries namespace secretName missingEntries)
      else
        let cert = lookup_string (Data secret) ''tls.crt'';
            missingEntries = missingEntries @ (if cert = [] then [''tls.crt''] else []);
            key = lookup_string (Data secret) ''tls.key'';
            missingEntries = missingEntries @ (if key = [] then [''tls.key''] else [])
        in
        if length missingEntries > 0 then Inl (EmptyTLSDataEntries namespace secretName missingEntries)
        else Inr (cert, key))"

text \<open>
  The map \<^verbatim>\<open>tlsConfigs\<close> is an association list in which a key is stored once: an entry
  is added only when its key is absent. The order of the list is one of the orders in which
  Go may iterate over the map.
\<close>

type_synonym tlsConfigs = "(string \<times> Certificate) list"

text \<open>
  The loop of \<^verbatim>\<open>getTLS\<close> over \<^verbatim>\<open>ingress.Spec.TLS\<close>. The result is the returned
  error, the map as the loop leaves it, and the events in the order they happen.
\<close>

fun getTLS_loop :: "string \<Rightarrow> Client \<Rightarrow> IngressTLS list \<Rightarrow> tlsConfigs \<Rightarrow> error option \<times> tlsConfigs \<times> event list" where
  "getTLS_loop namespace k8sClient [] tlsConfigs = (None, tlsConfigs, [])"
| "getTLS_loop namespace k8sClient (t # ts) tlsConfigs =
     (if SecretName t = [] then
        (case getTLS_loop namespace k8sClient ts tlsConfigs of
           (err, tlsConfigs', evs) \<Rightarrow> (err, tlsConfigs', Log SkippingTLSSubSection # evs))
      else
        let configKey = namespace @ ''/'' @ SecretName t in
        if map_of tlsConfigs configKey \<noteq> None then getTLS_loop namespace k8sClient ts tlsConfigs
        else
          (case GetSecret k8sClient namespace (SecretName t) of
             Inl err \<Rightarrow>
               (Some (FailedToFetchSecret namespace (SecretName t) err), tlsConfigs,
                [GetSecretCall namespace (SecretName t)])
           | Inr None \<Rightarrow>
               (Some (SecretDoesNotExist namespace (SecretName t)), tlsConfigs,
                [GetSecretCall namespace (SecretName t)])
           | Inr (Some secret) \<Rightarrow>
               (case getCertificateBlocks secret namespace (SecretName t) of
                  Inl err \<Rightarrow> (Some err, tlsConfigs, [GetSecretCall namespace (SecretName t)])
                | Inr (cert, key) \<Rightarrow>
                    (case getTLS_loop namespace k8sClient ts
                            (tlsConfigs @ [(configKey, \<lparr>CertFile = cert, KeyFile = key\<rparr>)]) of
                       (err, tlsConfigs', evs) \<Rightarrow>
                         (err, tlsConfigs', GetSecretCall namespace (SecretName t) # evs)))))"

definition getTLS :: "Ingress \<Rightarrow> Client \<Rightarrow> tlsConfigs \<Rightarrow> error option \<times> tlsConfigs \<times> event list" where
  "getTLS ingress k8sClient tlsConfigs =
     getTLS_loop (Namespace ingress) k8sClient (SpecTLS ingress) tlsConfigs"

text \<open>
  \<^verbatim>\<open>getTLSConfig\<close>: the keys of the map (each once, in any order), sorted by
  \<^verbatim>\<open>sort.Strings\<close>, then the entry of each key.
\<close>

definition secretNames :: "tlsConfigs \<Rightarrow> string list" where
  "secretNames tlsConfigs = sort (remdups (map fst tlsConfigs))"

definition getTLSConfig :: "tlsConfigs \<Rightarrow> Certificate list" where
  "getTLSConfig tlsConfigs = List.map_filter (map_of tlsConfigs) (secretNames tlsConfigs)"

section \<open>updateIngressStatus\<close>

text \<open>
  The result is a panic, or the returned error with the events of the call. The write
  \<^verbatim>\<open>k8sClient.UpdateIngressStatus\<close> is recorded as an event and its error returned.
\<close>

definition updateIngressStatus :: "Provider \<Rightarrow> Ingress \<Rightarrow> Client \<Rightarrow> panic + (error option \<times> event list)" where
  "updateIngressStatus p i k8sClient =
     (case IngressEndpoint p of
        None \<Rightarrow> Inr (None, [])
      | Some ep \<Rightarrow>
          if length (PublishedService ep) = 0 then
            (if length (IP ep) = 0 \<and> length (Hostname ep) = 0 then Inr (Some EndpointUndefined, [])
             else Inr (UpdateIngressStatus k8sClient (Namespace i) (Name i) (IP ep) (Hostname ep),
                       [UpdateIngressStatusCall (Namespace i) (Name i) (IP ep) (Hostname ep)]))
          else
            (case Split (PublishedService ep) (CHR ''/'') of
               [serviceNamespace, serviceName] \<Rightarrow>
                 (case GetService k8sClient serviceNamespace serviceName of
                    Inl err \<Rightarrow> Inr (Some (CannotGetService (PublishedService ep) err), [])
                  | Inr None \<Rightarrow> Inr (Some (MissingService (PublishedService ep)), [])
                  | Inr (Some service) \<Rightarrow>
                      (case StatusLoadBalancerIngress service of
                         None \<Rightarrow>
                           Inr (None, [Log (SkippingUpdatingIngress (Namespace i) (Name i) (PublishedService ep))])
                       | Some [] \<Rightarrow> Inl IndexOutOfRange
                       | Some (lb # _) \<Rightarrow>
                           Inr (UpdateIngressStatus k8sClient (Namespace i) (Name i) (lb_IP lb) (lb_Hostname lb),
                                [UpdateIngressStatusCall (Namespace i) (Name i) (lb_IP lb) (lb_Hostname lb)])))
             | _ \<Rightarrow> Inr (Some (InvalidPublishedServiceFormat (PublishedService ep)), [])))"

section \<open>loadConfigurationFromIngresses\<close>

text \<open>
  The local variables of the function while it runs: the two maps of \<^verbatim>\<open>conf.HTTP\<close>,
  the map \<^verbatim>\<open>tlsConfigs\<close>, and the events so far.
\<close>

record translation =
  Routers :: "string \<rightharpoonup> Router"
  Services :: "string \<rightharpoonup> LoadBalancerService"
  tlsCache :: tlsConfigs
  trace :: "event list"

definition emit :: "translation \<Rightarrow> event list \<Rightarrow> translation" where
  "emit s evs = s\<lparr>trace := trace s @ evs\<rparr>"

text \<open>The two lines that compute \<^verbatim>\<open>serviceName\<close> for a path.\<close>

definition serviceKey :: "string \<Rightarrow> IngressBackend \<Rightarrow> string" where
  "serviceKey namespace backend =
     ReplaceAll (namespace @ ''/'' @ ServiceName backend @ ''/'' @ IntOrString_String (ServicePort backend))
       (CHR ''.'') (CHR ''-'')"

text \<open>The body of the loop over \<^verbatim>\<open>rule.HTTP.Paths\<close>; each exit by \<^verbatim>\<open>continue\<close> only logs.\<close>

definition loadPath :: "unquote \<Rightarrow> Client \<Rightarrow> Ingress \<Rightarrow> IngressRule \<Rightarrow> translation \<Rightarrow> HTTPIngressPath \<Rightarrow> translation" where
  "loadPath Unquote client ingress rule s p =
     (case loadService client (Namespace ingress) (Backend p) of
        Inl err \<Rightarrow>
          emit s [Log (CannotCreateService (ServiceName (Backend p))
                        (IntOrString_String (ServicePort (Backend p))) err)]
      | Inr service \<Rightarrow>
          (case checkStringQuoteValidity Unquote (Path p) of
             Some err \<Rightarrow> emit s [Log (InvalidSyntaxForPath (Path p))]
           | None \<Rightarrow>
               let serviceName = serviceKey (Namespace ingress) (Backend p);
                   rules = (if length (Host rule) > 0 then [''Host(`'' @ Host rule @ ''`)''] else []);
                   rules = (if length (Path p) > 0 then rules @ [''PathPrefix(`'' @ Path p @ ''`)''] else rules)
               in s\<lparr>Routers := (Routers s)
                        (ReplaceAll (Host rule) (CHR ''.'') (CHR ''-'') @ Path p \<mapsto>
                           \<lparr>Rule = Join rules '' && '', Priority = 0, RouterService = serviceName\<rparr>),
                     Services := (Services s)(serviceName \<mapsto> service)\<rparr>))"

text \<open>
  The loop over \<^verbatim>\<open>ingress.Spec.Rules\<close>. Reading \<^verbatim>\<open>rule.HTTP.Paths\<close> through a nil
  \<^verbatim>\<open>rule.HTTP\<close> panics. \<^verbatim>\<open>updateIngressStatus\<close> is called at the end of the body.
\<close>

fun loadRules :: "unquote \<Rightarrow> Provider \<Rightarrow> Client \<Rightarrow> Ingress \<Rightarrow> translation \<Rightarrow> IngressRule list \<Rightarrow> panic + translation" where
  "loadRules Unquote p client ingress s [] = Inr s"
| "loadRules Unquote p client ingress s (rule # rules) =
     (case checkStringQuoteValidity Unquote (Host rule) of
        Some err \<Rightarrow>
          loadRules Unquote p client ingress (emit s [Log (InvalidSyntaxForHost (Host rule))]) rules
      | None \<Rightarrow>
          (case HTTP rule of
             None \<Rightarrow> Inl NilPointerDereference
           | Some paths \<Rightarrow>
               let s1 = foldl (loadPath Unquote client ingress rule) s paths;
                   s2 = emit s1 [StatusReconcile (Namespace ingress) (Name ingress)]
               in
               (case updateIngressStatus p ingress client of
                  Inl pn \<Rightarrow> Inl pn
                | Inr (err, evs) \<Rightarrow>
                    loadRules Unquote p client ingress
                      (emit s2 (evs @ (case err of None \<Rightarrow> []
                                        | Some e \<Rightarrow> [Log (ErrorWhileUpdatingIngressStatus e)])))
                      rules)))"

text \<open>
  The block for an ingress without rules. The flag of the result tells whether the block
  leaves by \<^verbatim>\<open>continue\<close>, which skips the rest of the body for this ingress.
\<close>

definition loadDefaultBackend :: "Client \<Rightarrow> Ingress \<Rightarrow> translation \<Rightarrow> translation \<times> bool" where
  "loadDefaultBackend client ingress s =
     (if length (SpecRules ingress) = 0 then
        (case SpecBackend ingress of
           None \<Rightarrow> (s, False)
         | Some backend \<Rightarrow>
             if Services s ''default-backend'' \<noteq> None then
               (emit s [Log DefaultBackendAlreadyExists], True)
             else
               (case loadService client (Namespace ingress) backend of
                  Inl err \<Rightarrow>
                    (emit s [Log (CannotCreateService (ServiceName backend)
                                   (IntOrString_String (ServicePort backend)) err)], True)
                | Inr service \<Rightarrow>
                    (s\<lparr>Routers := (Routers s)
                          (''/'' \<mapsto> \<lparr>Rule = ''PathPrefix(`/`)'', Priority = MinInt32,
                                    RouterService = ''default-backend''\<rparr>),
                       Services := (Services s)(''default-backend'' \<mapsto> service)\<rparr>, False)))
      else (s, False))"

text \<open>The body of the loop over the ingresses.\<close>

definition loadIngress :: "unquote \<Rightarrow> Provider \<Rightarrow> Client \<Rightarrow> translation \<Rightarrow> Ingress \<Rightarrow> panic + translation" where
  "loadIngress Unquote p client s ingress =
     (if \<not> shouldProcessIngress (IngressClass p)
             (lookup_string (Annotations ingress) annotationKubernetesIngressClass)
      then Inr s
      else
        (case getTLS ingress client (tlsCache s) of
           (err, tlsConfigs', evs) \<Rightarrow>
             let s1 = emit (s\<lparr>tlsCache := tlsConfigs'\<rparr>)
                        (evs @ (case err of None \<Rightarrow> [] | Some e \<Rightarrow> [Log (ErrorConfiguringTLS e)]))
             in
             (case loadDefaultBackend client ingress s1 of
                (s2, continue) \<Rightarrow>
                  if continue then Inr s2
                  else loadRules Unquote p client ingress s2 (SpecRules ingress))))"

fun loadIngresses :: "unquote \<Rightarrow> Provider \<Rightarrow> Client \<Rightarrow> translation \<Rightarrow> Ingress list \<Rightarrow> panic + translation" where
  "loadIngresses Unquote p client s [] = Inr s"
| "loadIngresses Unquote p client s (ingress # ingresses) =
     (case loadIngress Unquote p client s ingress of
        Inl pn \<Rightarrow> Inl pn
      | Inr s' \<Rightarrow> loadIngresses Unquote p client s' ingresses)"

definition emptyTranslation :: translation where
  "emptyTranslation = \<lparr>Routers = Map.empty, Services = Map.empty, tlsCache = [], trace = []\<rparr>"

definition loadConfigurationFromIngresses :: "unquote \<Rightarrow> Provider \<Rightarrow> Client \<Rightarrow> panic + (Configuration \<times> event list)" where
  "loadConfigurationFromIngresses Unquote p client =
     (case loadIngresses Unquote p client emptyTranslation (GetIngresses client) of
        Inl pn \<Rightarrow> Inl pn
      | Inr s \<Rightarrow>
          let certs = getTLSConfig (tlsCache s) in
          Inr (\<lparr>HTTPRouters = Routers s, HTTPServices = Services s,
                TLS = (if length certs > 0 then Some certs else None)\<rparr>,
               trace s))"

section \<open>Provide: the loop over the change notifications\<close>

text \<open>
  Of \<^verbatim>\<open>Provide\<close>, the loop \<^verbatim>\<open>for { select { ... } }\<close> is modelled; creating the client,
  subscribing with \<^verbatim>\<open>WatchAll\<close> and retrying with backoff are outside the model.

  One turn of the loop for one notification: compute the configuration with the client as
  it is then, compare it with \<^verbatim>\<open>p.lastConfiguration\<close>, and either skip or store and
  send. The result is the provider and the messages sent on \<^verbatim>\<open>configurationChan\<close>.
\<close>

definition onEvent :: "unquote \<Rightarrow> Provider \<Rightarrow> Client \<Rightarrow> panic + (Provider \<times> Message list)" where
  "onEvent Unquote p k8sClient =
     (case loadConfigurationFromIngresses Unquote p k8sClient of
        Inl pn \<Rightarrow> Inl pn
      | Inr (conf, evs) \<Rightarrow>
          if lastConfiguration p = Some conf then Inr (p, [])
          else Inr (p\<lparr>lastConfiguration := Some conf\<rparr>,
                    [\<lparr>ProviderName = ''kubernetes'', MessageConfiguration = conf\<rparr>]))"

text \<open>
  The loop: the list holds, for each notification received before the stop signal, the
  client as it is at that notification. A panic ends the loop (the caller recovers it
  outside this file); the messages sent before it stay sent.
\<close>

fun watchLoop :: "unquote \<Rightarrow> Provider \<Rightarrow> Client list \<Rightarrow> Provider \<times> Message list \<times> panic option" where
  "watchLoop Unquote p [] = (p, [], None)"
| "watchLoop Unquote p (k8sClient # events) =
     (case onEvent Unquote p k8sClient of
        Inl pn \<Rightarrow> (p, [], Some pn)
      | Inr (p', msgs) \<Rightarrow>
          (case watchLoop Unquote p' events of
             (p'', msgs', r) \<Rightarrow> (p'', msgs @ msgs', r)))"

section \<open>Notions used to state the properties\<close>

text \<open>
  These are not functions of the source. \<open>processed\<close> is the test at the head of the
  loop over the ingresses. \<open>certificateOf\<close> is the entry that \<^verbatim>\<open>getTLS\<close> stores for a
  secret, or \<open>None\<close> when the secret does not resolve (it cannot be fetched, does not
  exist, or lacks a certificate or key). \<open>tlsReferences\<close> lists the secrets that the
  processed ingresses of a snapshot reference, as pairs of namespace and secret name, and
  \<open>tlsEntry\<close> is the map entry of such a reference; \<open>cachedReferences\<close> keeps, for
  each processed ingress, the references before its first secret that does not resolve.
  \<open>sameHTTP\<close> holds of two states
  of the translation with the same routers and services, \<open>sameButTLS\<close> of two ingresses
  that differ at most in their TLS sections. \<open>statusReconciles\<close> reads off a trace the
  invocations of \<^verbatim>\<open>updateIngressStatus\<close>, and \<open>expectedReconciles\<close> lists one
  invocation for each rule with a well-quoted host of each processed ingress.
  \<open>declaresDefault\<close> holds of a processed ingress without rules that has a fallback
  backend, \<open>defaultResolves\<close> when \<^verbatim>\<open>loadService\<close> succeeds on that backend, and
  \<open>defaultRouter\<close> is the router that the code stores under the key \<^verbatim>\<open>/\<close> for it.
  \<open>pathWritesRoot\<close> holds of a path of a rule that the loop over the paths turns into
  a router under that same key \<^verbatim>\<open>/\<close>: the host with its dots replaced, followed by
  the path, is \<^verbatim>\<open>/\<close>, the path is well quoted and its service loads;
  \<open>ruleWritesRoot\<close> holds of a rule with a well-quoted host that has such a path, and
  \<open>writesRootRouter\<close> of a processed ingress that has such a rule.
\<close>

definition certificateOf :: "Client \<Rightarrow> string \<Rightarrow> string \<Rightarrow> Certificate option" where
  "certificateOf k8sClient namespace secretName =
     (case GetSecret k8sClient namespace secretName of
        Inr (Some secret) \<Rightarrow>
          (case getCertificateBlocks secret namespace secretName of
             Inr (cert, key) \<Rightarrow> Some \<lparr>CertFile = cert, KeyFile = key\<rparr>
           | Inl err \<Rightarrow> None)
      | _ \<Rightarrow> None)"



definition tlsEntry :: "Client \<Rightarrow> string \<times> string \<Rightarrow> string \<times> Certificate" where
  "tlsEntry k8sClient r = (fst r @ ''/'' @ snd r, the (certificateOf k8sClient (fst r) (snd r)))"


definition sameHTTP :: "translation \<Rightarrow> translation \<Rightarrow> bool" where
  "sameHTTP s t = (Routers s = Routers t \<and> Services s = Services t)"

definition sameButTLS :: "Ingress \<Rightarrow> Ingress \<Rightarrow> bool" where
  "sameButTLS i i' =
     (Name i' = Name i \<and> Namespace i' = Namespace i \<and> Annotations i' = Annotations i \<and>
      SpecBackend i' = SpecBackend i \<and> SpecRules i' = SpecRules i)"

fun statusReconciles :: "event list \<Rightarrow> (string \<times> string) list" where
  "statusReconciles [] = []"
| "statusReconciles (StatusReconcile namespace name # evs) = (namespace, name) # statusReconciles evs"
| "statusReconciles (ev # evs) = statusReconciles evs"








section \<open>A small cluster for concrete runs\<close>

text \<open>
  An instance of \<open>Unquote\<close> for the concrete runs: it accepts a quoted string whose
  inside has no quote, backslash or newline, on which \<^verbatim>\<open>strconv.Unquote\<close> succeeds
  as well, and rejects the rest.
\<close>

definition exUnquote :: unquote where
  "exUnquote s =
     (case s of
        [] \<Rightarrow> Inl UnquoteSyntaxError
      | q # rest \<Rightarrow>
          if q = CHR 0x22 \<and> rest \<noteq> [] \<and> last rest = CHR 0x22 \<and>
             list_all (\<lambda>c. c \<noteq> CHR 0x22 \<and> c \<noteq> CHR 0x5C \<and> c \<noteq> CHR 0x0A) (butlast rest)
          then Inr (butlast rest)
          else Inl UnquoteSyntaxError)"

definition exGetService :: "string \<Rightarrow> string \<Rightarrow> error + Service option" where
  "exGetService namespace name =
     (if namespace = ''default'' \<and> (name = ''web'' \<or> name = ''split'') then
        Inr (Some \<lparr>SpecPorts = [\<lparr>sp_Name = ''http'', sp_Port = 80\<rparr>], SpecType = ''ClusterIP'',
                    SpecExternalName = [], StatusLoadBalancerIngress = None\<rparr>)
      else if namespace = ''default'' \<and> name = ''fallback'' then
        Inr (Some \<lparr>SpecPorts = [\<lparr>sp_Name = [], sp_Port = 9000\<rparr>], SpecType = ''ExternalName'',
                    SpecExternalName = ''external.example.org'', StatusLoadBalancerIngress = None\<rparr>)
      else Inr None)"

definition exGetEndpoints :: "string \<Rightarrow> string \<Rightarrow> error + Endpoints option" where
  "exGetEndpoints namespace name =
     (if namespace = ''default'' \<and> name = ''web'' then
        Inr (Some \<lparr>Subsets =
          [\<lparr>Addresses = [''10.0.0.5''], Ports = [\<lparr>ep_Name = ''http'', ep_Port = 8080\<rparr>]\<rparr>]\<rparr>)
      else if namespace = ''default'' \<and> name = ''split'' then
        Inr (Some \<lparr>Subsets =
          [\<lparr>Addresses = [''10.0.0.1''], Ports = [\<lparr>ep_Name = ''http'', ep_Port = 8080\<rparr>]\<rparr>,
           \<lparr>Addresses = [''10.0.0.2''], Ports = [\<lparr>ep_Name = ''metrics'', ep_Port = 9090\<rparr>]\<rparr>]\<rparr>)
      else Inr None)"

definition exGetSecret :: "string \<Rightarrow> string \<Rightarrow> error + Secret option" where
  "exGetSecret namespace name =
     (if namespace = ''default'' \<and> name = ''a-secret'' then
        Inr (Some \<lparr>Data = [''tls.crt'' \<mapsto> ''CERT-A'', ''tls.key'' \<mapsto> ''KEY-A'']\<rparr>)
      else if namespace = ''default'' \<and> name = ''b-secret'' then
        Inr (Some \<lparr>Data = [''tls.crt'' \<mapsto> ''CERT-B'', ''tls.key'' \<mapsto> ''KEY-B'']\<rparr>)
      else Inr None)"

definition exClient :: "Ingress list \<Rightarrow> Client" where
  "exClient ingresses =
     \<lparr>GetIngresses = ingresses, GetService = exGetService, GetEndpoints = exGetEndpoints,
      GetSecret = exGetSecret, UpdateIngressStatus = (\<lambda>namespace name ip hostname. None)\<rparr>"

definition exProvider :: Provider where
  "exProvider = \<lparr>IngressClass = [], IngressEndpoint = Some \<lparr>IP = ''192.0.2.1'', Hostname = [], PublishedService = []\<rparr>,
                  lastConfiguration = None\<rparr>"

definition exBackend :: "string \<Rightarrow> int32 \<Rightarrow> IngressBackend" where
  "exBackend name port =
     \<lparr>ServiceName = name, ServicePort = \<lparr>Type = intstr_Int, IntVal = port, StrVal = []\<rparr>\<rparr>"

definition exIngress :: "string \<Rightarrow> IngressBackend option \<Rightarrow> IngressTLS list \<Rightarrow> IngressRule list \<Rightarrow> Ingress" where
  "exIngress name backend tls rules =
     \<lparr>Name = name, Namespace = ''default'', Annotations = Map.empty, SpecBackend = backend,
      SpecTLS = tls, SpecRules = rules\<rparr>"

definition exRule :: "string \<Rightarrow> string \<Rightarrow> IngressRule" where
  "exRule host path = \<lparr>Host = host, HTTP = Some [\<lparr>Path = path, Backend = exBackend ''web'' 80\<rparr>]\<rparr>"

definition exEmptyConfiguration :: Configuration where
  "exEmptyConfiguration = \<lparr>HTTPRouters = Map.empty, HTTPServices = Map.empty, TLS = None\<rparr>"

definition exCertA :: Certificate where "exCertA = \<lparr>CertFile = ''CERT-A'', KeyFile = ''KEY-A''\<rparr>"

definition exCertB :: Certificate where "exCertB = \<lparr>CertFile = ''CERT-B'', KeyFile = ''KEY-B''\<rparr>"

definition exTLSIngress :: "string \<Rightarrow> string \<Rightarrow> Ingress" where
  "exTLSIngress name secretName = exIngress name None [\<lparr>SecretName = secretName\<rparr>] []"

definition exWebRouter :: Router where
  "exWebRouter = \<lparr>Rule = ''Host(`example.com`) && PathPrefix(`/`)'', Priority = 0,
                   RouterService = ''default/web/80''\<rparr>"

definition exWebService :: LoadBalancerService where
  "exWebService = \<lparr>Servers = [''http://10.0.0.5:8080''], PassHostHeader = True\<rparr>"

definition exTLSRuleIngress :: "IngressTLS list \<Rightarrow> Ingress" where
  "exTLSRuleIngress tls = exIngress ''a'' None tls [exRule ''example.com'' ''/'']"



definition exBackend80 :: IngressBackend where
  "exBackend80 = \<lparr>ServiceName = ''web'', ServicePort = \<lparr>Type = intstr_Int, IntVal = 80, StrVal = ''unused''\<rparr>\<rparr>"






section \<open>Evaluation of the concrete cluster\<close>

lemmas ex_defs = exUnquote_def exGetService_def exGetEndpoints_def exGetSecret_def exClient_def
  exProvider_def exBackend_def exIngress_def exRule_def

lemmas load_defs = loadConfigurationFromIngresses_def loadIngress_def shouldProcessIngress_def
  lookup_string_def getTLS_def loadDefaultBackend_def checkStringQuoteValidity_def
  emptyTranslation_def emit_def

lemma Itoa_8080: "Itoa 8080 = ''8080''"
  by (simp add: Itoa_def nat_digits.simps)

section \<open>The class filter\<close>

text \<open>
  C3 (as amended). An ingress is processed exactly when its class annotation equals the
  configured class, or no class is configured and the annotation is \<^verbatim>\<open>traefik\<close>. An
  absent annotation reads as the empty string, so with no class configured an ingress
  without the annotation is processed. An ingress that is not processed leaves the
  translation as it was.
\<close>

theorem shouldProcessIngress_iff:
  "(shouldProcessIngress ingressClass annotation \<longleftrightarrow>
      annotation = ingressClass \<or> (ingressClass = [] \<and> annotation = ''traefik'')) \<and>
   shouldProcessIngress [] (lookup_string Map.empty annotationKubernetesIngressClass) \<and>
   (\<not> shouldProcessIngress (IngressClass p)
         (lookup_string (Annotations ingress) annotationKubernetesIngressClass)
    \<longrightarrow> loadIngress Unquote p client s ingress = Inr s)"
  by (auto simp: shouldProcessIngress_def traefikDefaultIngressClass_def lookup_string_def
      loadIngress_def)

theorem shouldProcessIngress_iff_witness:
  "\<not> shouldProcessIngress (IngressClass (exProvider\<lparr>IngressClass := ''internal''\<rparr>))
       (lookup_string (Annotations (exIngress ''a'' None [] [])) annotationKubernetesIngressClass) \<and>
   loadIngress exUnquote (exProvider\<lparr>IngressClass := ''internal''\<rparr>) (exClient []) emptyTranslation
     (exIngress ''a'' None [] []) = Inr emptyTranslation"
  using shouldProcessIngress_iff [of "''internal''" "[]" "exProvider\<lparr>IngressClass := ''internal''\<rparr>"
      "exIngress ''a'' None [] []" exUnquote "exClient []" emptyTranslation]
  by (simp add: ex_defs lookup_string_def)

text \<open>
  The claim as stated fails: with no class configured, the ingress without a class
  annotation passes the filter.
\<close>

theorem shouldProcessIngress_absent_annotation:
  "Annotations (exIngress ''a'' None [] []) annotationKubernetesIngressClass = None \<and>
   shouldProcessIngress (IngressClass exProvider)
     (lookup_string (Annotations (exIngress ''a'' None [] [])) annotationKubernetesIngressClass)"
  by (simp add: ex_defs lookup_string_def shouldProcessIngress_def)

section \<open>Service resolution over several subsets\<close>

text \<open>
  C4. The service \<^verbatim>\<open>default/split\<close> has the port \<^verbatim>\<open>http\<close>; its first subset names the
  port \<^verbatim>\<open>http\<close> (8080), its second subset has no port of that name. The code does not
  fail on the second subset: it gives the address of the second subset the port 8080 that
  the first subset left in the variable \<^verbatim>\<open>port\<close>. The same subset on its own, with
  \<^verbatim>\<open>port\<close> still 0, makes the resolution fail.
\<close>

theorem loadService_reuses_port_of_earlier_subset:
  "loadService (exClient []) ''default'' (exBackend ''split'' 80) =
     Inr \<lparr>Servers = [''http://10.0.0.1:8080'', ''http://10.0.0.2:8080''], PassHostHeader = True\<rparr> \<and>
   loadSubsets ''http'' 0 []
     [\<lparr>Addresses = [''10.0.0.2''], Ports = [\<lparr>ep_Name = ''metrics'', ep_Port = 9090\<rparr>]\<rparr>] =
     Inl CannotDefineAPort"
  by (simp add: loadService_def ex_defs ServiceTypeExternalName_def HasPrefix_def Itoa_8080)

section \<open>A rule without an HTTP section\<close>

text \<open>
  C9. A rule that declares a host and has no HTTP section makes the translation panic
  with a nil pointer dereference; no configuration is returned.
\<close>

theorem loadConfigurationFromIngresses_nil_HTTP:
  "loadConfigurationFromIngresses exUnquote exProvider
     (exClient [exIngress ''a'' None [] [\<lparr>Host = ''example.com'', HTTP = None\<rparr>]])
   = Inl NilPointerDereference"
  by (simp add: load_defs ex_defs)

section \<open>TLS sections without a secret name\<close>

text \<open>
  C10. A TLS section whose secret name is empty is skipped: the loop goes on with the
  next section and only logs a debug line. Hence running \<^verbatim>\<open>getTLS\<close> on an ingress gives
  the same error, the same map and the same events other than that debug line as running
  it on the ingress without its sections of empty secret name: such a section fetches no
  secret, adds no entry, raises no error and does not stop the sections after it.
\<close>

theorem getTLS_skips_empty_secret_name:
  "(SecretName t = [] \<longrightarrow>
      getTLS_loop namespace k8sClient (t # ts) tlsConfigs =
        (case getTLS_loop namespace k8sClient ts tlsConfigs of
           (err, tlsConfigs', evs) \<Rightarrow> (err, tlsConfigs', Log SkippingTLSSubSection # evs))) \<and>
   fst (getTLS ingress k8sClient tlsConfigs) =
     fst (getTLS (ingress\<lparr>SpecTLS := filter (\<lambda>t. SecretName t \<noteq> []) (SpecTLS ingress)\<rparr>) k8sClient tlsConfigs) \<and>
   fst (snd (getTLS ingress k8sClient tlsConfigs)) =
     fst (snd (getTLS (ingress\<lparr>SpecTLS := filter (\<lambda>t. SecretName t \<noteq> []) (SpecTLS ingress)\<rparr>) k8sClient tlsConfigs)) \<and>
   filter (\<lambda>ev. ev \<noteq> Log SkippingTLSSubSection) (snd (snd (getTLS ingress k8sClient tlsConfigs))) =
     snd (snd (getTLS (ingress\<lparr>SpecTLS := filter (\<lambda>t. SecretName t \<noteq> []) (SpecTLS ingress)\<rparr>) k8sClient tlsConfigs))"
proof -
  have loop: "fst (getTLS_loop ns cl xs c) = fst (getTLS_loop ns cl (filter (\<lambda>t. SecretName t \<noteq> []) xs) c) \<and>
      fst (snd (getTLS_loop ns cl xs c)) =
        fst (snd (getTLS_loop ns cl (filter (\<lambda>t. SecretName t \<noteq> []) xs) c)) \<and>
      filter (\<lambda>ev. ev \<noteq> Log SkippingTLSSubSection) (snd (snd (getTLS_loop ns cl xs c))) =
        snd (snd (getTLS_loop ns cl (filter (\<lambda>t. SecretName t \<noteq> []) xs) c))"
    for ns cl xs c
  proof (induction xs arbitrary: c)
    case Nil
    show ?case by simp
  next
    case (Cons x xs)
    show ?case
    proof (cases "SecretName x = []")
      case True
      with Cons [of c] show ?thesis by (simp add: split_beta)
    next
      case False
      then show ?thesis
        using Cons by (simp add: Let_def split_beta split: sum.splits option.splits)
    qed
  qed
  show ?thesis
    using loop [of "Namespace ingress" k8sClient "SpecTLS ingress" tlsConfigs]
    by (simp add: getTLS_def)
qed

theorem getTLS_skips_empty_secret_name_witness:
  "SecretName \<lparr>SecretName = []\<rparr> = [] \<and>
   getTLS_loop ''default'' (exClient []) [\<lparr>SecretName = []\<rparr>, \<lparr>SecretName = ''a-secret''\<rparr>] [] =
     (None, [(''default/a-secret'', \<lparr>CertFile = ''CERT-A'', KeyFile = ''KEY-A''\<rparr>)],
      [Log SkippingTLSSubSection, GetSecretCall ''default'' ''a-secret''])"
  using getTLS_skips_empty_secret_name [of "\<lparr>SecretName = []\<rparr>" "''default''" "exClient []"
      "[\<lparr>SecretName = ''a-secret''\<rparr>]" "[]" "exIngress ''a'' None [] []"]
  by (simp add: ex_defs getCertificateBlocks_def lookup_string_def)

section \<open>The loop over the change notifications\<close>

lemma onEvent_Inr:
  assumes "onEvent U p cl = Inr (p', msgs)"
  shows "(msgs = [] \<and> p' = p) \<or>
         (\<exists>conf. msgs = [\<lparr>ProviderName = ''kubernetes'', MessageConfiguration = conf\<rparr>] \<and>
                 p' = p\<lparr>lastConfiguration := Some conf\<rparr> \<and> lastConfiguration p \<noteq> Some conf)"
  using assms by (auto simp: onEvent_def split: sum.splits if_splits)

lemma watchLoop_distinct_adj:
  "watchLoop U p events = (p', msgs, r) \<Longrightarrow>
   distinct_adj (map MessageConfiguration msgs) \<and>
   (msgs \<noteq> [] \<longrightarrow> lastConfiguration p \<noteq> Some (MessageConfiguration (hd msgs)))"
proof (induction events arbitrary: p p' msgs r)
  case Nil
  then show ?case by simp
next
  case (Cons cl events)
  show ?case
  proof (cases "onEvent U p cl")
    case (Inl pn)
    with Cons.prems show ?thesis by simp
  next
    case (Inr a)
    obtain p1 m1 where a: "a = (p1, m1)" by (cases a)
    obtain p2 m2 r2 where rec: "watchLoop U p1 events = (p2, m2, r2)"
      by (cases "watchLoop U p1 events") auto
    from Cons.prems Inr a rec have msgs: "msgs = m1 @ m2" by simp
    note ih = Cons.IH [OF rec]
    from onEvent_Inr [OF Inr [unfolded a]] show ?thesis
    proof
      assume "m1 = [] \<and> p1 = p"
      with ih msgs show ?thesis by simp
    next
      assume "\<exists>conf. m1 = [\<lparr>ProviderName = ''kubernetes'', MessageConfiguration = conf\<rparr>] \<and>
                 p1 = p\<lparr>lastConfiguration := Some conf\<rparr> \<and> lastConfiguration p \<noteq> Some conf"
      then obtain conf where c: "m1 = [\<lparr>ProviderName = ''kubernetes'', MessageConfiguration = conf\<rparr>]"
        "p1 = p\<lparr>lastConfiguration := Some conf\<rparr>" "lastConfiguration p \<noteq> Some conf" by blast
      with ih msgs show ?thesis by (cases m2) (auto simp: distinct_adj_Cons)
    qed
  qed
qed

lemma watchLoop_append:
  "watchLoop U p (xs @ ys) =
     (case watchLoop U p xs of
        (p1, msgs1, Some pn) \<Rightarrow> (p1, msgs1, Some pn)
      | (p1, msgs1, None) \<Rightarrow>
          (case watchLoop U p1 ys of (p2, msgs2, r) \<Rightarrow> (p2, msgs1 @ msgs2, r)))"
proof (induction xs arbitrary: p)
  case Nil
  show ?case by (simp add: split_beta)
next
  case (Cons cl xs)
  show ?case
  proof (cases "onEvent U p cl")
    case (Inl pn)
    then show ?thesis by simp
  next
    case (Inr a)
    obtain p1 m1 where a: "a = (p1, m1)" by (cases a)
    show ?thesis
      by (simp add: Inr a Cons.IH [of p1] split_beta split: option.splits)
  qed
qed

lemma watchLoop_snoc:
  assumes "watchLoop U p pre = (p1, msgs1, None)"
  shows "watchLoop U p (pre @ [cl]) =
     (case onEvent U p1 cl of
        Inl pn \<Rightarrow> (p1, msgs1, Some pn)
      | Inr (p2, msgs) \<Rightarrow> (p2, msgs1 @ msgs, None))"
  using assms by (simp add: watchLoop_append split: sum.splits)

text \<open>
  C1. For each notification the loop computes the configuration and compares it with the
  last published one: if they are equal, nothing is sent and the provider is unchanged;
  if they differ, the last published configuration becomes the new one and exactly one
  message carrying it is sent. This holds of one turn (\<open>onEvent\<close>) and of the loop
  itself: when the loop has handled the notifications \<open>pre\<close> and reached the provider
  \<open>p\<close> having sent \<open>msgs\<close>, handling one more notification either leaves provider and
  messages as they are, or stores the new configuration and appends exactly one message
  that carries it. So when two consecutive notifications compute the same configuration,
  the second sends nothing and changes nothing, and in a whole run no two consecutive
  messages carry the same configuration.
\<close>

theorem Provide_publishes_only_on_change:
  "(loadConfigurationFromIngresses U p cl = Inr (conf, evs) \<longrightarrow>
      (lastConfiguration p = Some conf \<longrightarrow> onEvent U p cl = Inr (p, [])) \<and>
      (lastConfiguration p \<noteq> Some conf \<longrightarrow>
         onEvent U p cl = Inr (p\<lparr>lastConfiguration := Some conf\<rparr>,
                               [\<lparr>ProviderName = ''kubernetes'', MessageConfiguration = conf\<rparr>]))) \<and>
   (loadConfigurationFromIngresses U p cl = Inr (conf, evs) \<and> onEvent U p cl = Inr (p', new) \<and>
    loadConfigurationFromIngresses U p' cl' = Inr (conf, evs')
      \<longrightarrow> onEvent U p' cl' = Inr (p', [])) \<and>
   distinct_adj (map MessageConfiguration (fst (snd (watchLoop U start events)))) \<and>
   (watchLoop U start pre = (p, msgs, None) \<and> loadConfigurationFromIngresses U p cl = Inr (conf, evs) \<longrightarrow>
      (lastConfiguration p = Some conf \<longrightarrow> watchLoop U start (pre @ [cl]) = (p, msgs, None)) \<and>
      (lastConfiguration p \<noteq> Some conf \<longrightarrow>
         watchLoop U start (pre @ [cl]) =
           (p\<lparr>lastConfiguration := Some conf\<rparr>,
            msgs @ [\<lparr>ProviderName = ''kubernetes'', MessageConfiguration = conf\<rparr>], None))) \<and>
   (watchLoop U start pre = (p, msgs, None) \<and> loadConfigurationFromIngresses U p cl = Inr (conf, evs) \<and>
    watchLoop U start (pre @ [cl]) = (p', msgs', r) \<and>
    loadConfigurationFromIngresses U p' cl' = Inr (conf, evs')
      \<longrightarrow> lastConfiguration p' = Some conf \<and> watchLoop U start (pre @ [cl, cl']) = (p', msgs', None))"
proof -
  have "distinct_adj (map MessageConfiguration (fst (snd (watchLoop U start events))))"
    using watchLoop_distinct_adj [of U start events] by (cases "watchLoop U start events") auto
  moreover have "loadConfigurationFromIngresses U p cl = Inr (conf, evs) \<and> onEvent U p cl = Inr (p', new) \<and>
    loadConfigurationFromIngresses U p' cl' = Inr (conf, evs')
      \<longrightarrow> onEvent U p' cl' = Inr (p', [])"
    by (auto simp: onEvent_def split: if_splits)
  moreover have "watchLoop U start pre = (p, msgs, None) \<and> loadConfigurationFromIngresses U p cl = Inr (conf, evs) \<longrightarrow>
      (lastConfiguration p = Some conf \<longrightarrow> watchLoop U start (pre @ [cl]) = (p, msgs, None)) \<and>
      (lastConfiguration p \<noteq> Some conf \<longrightarrow>
         watchLoop U start (pre @ [cl]) =
           (p\<lparr>lastConfiguration := Some conf\<rparr>,
            msgs @ [\<lparr>ProviderName = ''kubernetes'', MessageConfiguration = conf\<rparr>], None))"
    by (simp add: watchLoop_snoc onEvent_def)
  moreover have "lastConfiguration p' = Some conf \<and> watchLoop U start (pre @ [cl, cl']) = (p', msgs', None)"
    if h: "watchLoop U start pre = (p, msgs, None)" "loadConfigurationFromIngresses U p cl = Inr (conf, evs)"
      "watchLoop U start (pre @ [cl]) = (p', msgs', r)" "loadConfigurationFromIngresses U p' cl' = Inr (conf, evs')"
  proof -
    from h(3) have one: "lastConfiguration p' = Some conf \<and> r = None"
      by (auto simp: watchLoop_snoc [OF h(1)] onEvent_def h(2) split: if_splits)
    have "pre @ [cl, cl'] = (pre @ [cl]) @ [cl']" by simp
    with one h(3,4) show ?thesis
      by (simp only: watchLoop_snoc [of U start "pre @ [cl]" p' msgs' cl']) (simp add: onEvent_def)
  qed
  ultimately show ?thesis by (simp add: onEvent_def)
qed

lemma ex_empty_run:
  "loadConfigurationFromIngresses exUnquote p (exClient []) = Inr (exEmptyConfiguration, [])"
  by (simp add: loadConfigurationFromIngresses_def emptyTranslation_def exClient_def getTLSConfig_def
      secretNames_def exEmptyConfiguration_def)

lemma ex_run_a:
  "loadConfigurationFromIngresses exUnquote (exProvider\<lparr>lastConfiguration := c\<rparr>)
      (exClient [exTLSIngress ''i2'' ''a-secret'']) =
    Inr (\<lparr>HTTPRouters = Map.empty, HTTPServices = Map.empty, TLS = Some [exCertA]\<rparr>,
         [GetSecretCall ''default'' ''a-secret''])"
  by (simp add: load_defs ex_defs exTLSIngress_def exCertA_def getCertificateBlocks_def
      getTLSConfig_def secretNames_def)

theorem Provide_publishes_only_on_change_witness:
  "loadConfigurationFromIngresses exUnquote exProvider (exClient []) = Inr (exEmptyConfiguration, []) \<and>
   lastConfiguration exProvider \<noteq> Some exEmptyConfiguration \<and>
   onEvent exUnquote exProvider (exClient []) =
     Inr (exProvider\<lparr>lastConfiguration := Some exEmptyConfiguration\<rparr>,
          [\<lparr>ProviderName = ''kubernetes'', MessageConfiguration = exEmptyConfiguration\<rparr>]) \<and>
   onEvent exUnquote (exProvider\<lparr>lastConfiguration := Some exEmptyConfiguration\<rparr>) (exClient []) =
     Inr (exProvider\<lparr>lastConfiguration := Some exEmptyConfiguration\<rparr>, []) \<and>
   watchLoop exUnquote exProvider [exClient []] =
     (exProvider\<lparr>lastConfiguration := Some exEmptyConfiguration\<rparr>,
      [\<lparr>ProviderName = ''kubernetes'', MessageConfiguration = exEmptyConfiguration\<rparr>], None) \<and>
   watchLoop exUnquote exProvider [exClient [], exClient []] =
     (exProvider\<lparr>lastConfiguration := Some exEmptyConfiguration\<rparr>,
      [\<lparr>ProviderName = ''kubernetes'', MessageConfiguration = exEmptyConfiguration\<rparr>], None) \<and>
   watchLoop exUnquote exProvider [exClient [], exClient [], exClient [exTLSIngress ''i2'' ''a-secret'']] =
     (exProvider\<lparr>lastConfiguration :=
        Some \<lparr>HTTPRouters = Map.empty, HTTPServices = Map.empty, TLS = Some [exCertA]\<rparr>\<rparr>,
      [\<lparr>ProviderName = ''kubernetes'', MessageConfiguration = exEmptyConfiguration\<rparr>,
       \<lparr>ProviderName = ''kubernetes'',
        MessageConfiguration = \<lparr>HTTPRouters = Map.empty, HTTPServices = Map.empty, TLS = Some [exCertA]\<rparr>\<rparr>],
      None)"
proof -
  let ?c0 = "exClient []" and ?cA = "exClient [exTLSIngress ''i2'' ''a-secret'']"
  let ?confA = "\<lparr>HTTPRouters = Map.empty, HTTPServices = Map.empty, TLS = Some [exCertA]\<rparr>"
  let ?pA = "exProvider\<lparr>lastConfiguration := Some exEmptyConfiguration\<rparr>"
  let ?pB = "exProvider\<lparr>lastConfiguration := Some ?confA\<rparr>"
  let ?m0 = "\<lparr>ProviderName = ''kubernetes'', MessageConfiguration = exEmptyConfiguration\<rparr>"
  let ?mA = "\<lparr>ProviderName = ''kubernetes'', MessageConfiguration = ?confA\<rparr>"
  have run: "loadConfigurationFromIngresses exUnquote exProvider ?c0 = Inr (exEmptyConfiguration, [])"
    and run1: "loadConfigurationFromIngresses exUnquote ?pA ?c0 = Inr (exEmptyConfiguration, [])"
    by (rule ex_empty_run)+
  have runA: "loadConfigurationFromIngresses exUnquote ?pA ?cA = Inr (?confA, [GetSecretCall ''default'' ''a-secret''])"
    by (rule ex_run_a)
  have differs: "lastConfiguration exProvider \<noteq> Some exEmptyConfiguration"
    by (simp add: exProvider_def)
  have equal: "lastConfiguration ?pA = Some exEmptyConfiguration"
    by simp
  have differsA: "lastConfiguration ?pA \<noteq> Some ?confA"
    by (simp add: exEmptyConfiguration_def)
  have start: "watchLoop exUnquote exProvider [] = (exProvider, [], None)"
    by simp
  note first = Provide_publishes_only_on_change [where U = exUnquote and start = exProvider and pre = "[]"
      and p = exProvider and msgs = "[]" and cl = ?c0 and conf = exEmptyConfiguration and evs = "[]"
      and p' = ?pA and new = "[?m0]" and cl' = ?c0 and evs' = "[]" and msgs' = "[?m0]" and r = None
      and events = "[]"]
  note second = Provide_publishes_only_on_change [where U = exUnquote and start = exProvider and pre = "[?c0]"
      and p = ?pA and msgs = "[?m0]" and cl = ?c0 and conf = exEmptyConfiguration and evs = "[]"
      and p' = ?pA and new = "[]" and cl' = ?c0 and evs' = "[]" and msgs' = "[?m0]" and r = None
      and events = "[]"]
  note third = Provide_publishes_only_on_change [where U = exUnquote and start = exProvider and pre = "[?c0, ?c0]"
      and p = ?pA and msgs = "[?m0]" and cl = ?cA and conf = ?confA and evs = "[GetSecretCall ''default'' ''a-secret'']"
      and p' = ?pB and new = "[?mA]" and cl' = ?cA and evs' = "[]" and msgs' = "[?m0, ?mA]" and r = None
      and events = "[]"]
  from first run differs have sent: "onEvent exUnquote exProvider ?c0 = Inr (?pA, [?m0])"
    by blast
  from first run sent run1 have skipped: "onEvent exUnquote ?pA ?c0 = Inr (?pA, [])"
    by blast
  from first start run differs have one: "watchLoop exUnquote exProvider ([] @ [?c0]) = (?pA, [] @ [?m0], None)"
    by blast
  from first start run one run1 have two: "watchLoop exUnquote exProvider ([] @ [?c0, ?c0]) = (?pA, [?m0], None)"
    by simp
  from second run1 equal have skipped': "onEvent exUnquote ?pA ?c0 = Inr (?pA, [])"
    by blast
  from second one run1 equal have two': "watchLoop exUnquote exProvider ([?c0] @ [?c0]) = (?pA, [?m0], None)"
    by simp
  from third two runA differsA
  have three: "watchLoop exUnquote exProvider ([?c0, ?c0] @ [?cA]) = (?pA\<lparr>lastConfiguration := Some ?confA\<rparr>, [?m0] @ [?mA], None)"
    by simp
  from run differs sent skipped skipped' one two two' three show ?thesis by simp
qed

section \<open>What each step leaves unchanged\<close>

lemma emit_frame [simp]:
  "Routers (emit s evs) = Routers s" "Services (emit s evs) = Services s"
  "tlsCache (emit s evs) = tlsCache s" "trace (emit s evs) = trace s @ evs"
  by (simp_all add: emit_def)

lemma loadPath_tlsCache [simp]: "tlsCache (loadPath U cl ing rule s x) = tlsCache s"
  by (simp add: loadPath_def Let_def split: sum.splits option.splits)

lemma foldl_loadPath_tlsCache [simp]: "tlsCache (foldl (loadPath U cl ing rule) s xs) = tlsCache s"
  by (induction xs arbitrary: s) simp_all




lemma loadService_GetIngresses [simp]:
  "loadService (cl\<lparr>GetIngresses := x\<rparr>) = loadService cl"
  by (simp add: fun_eq_iff loadService_def split: sum.splits option.splits)

lemma getTLS_loop_GetIngresses [simp]:
  "getTLS_loop ns (cl\<lparr>GetIngresses := x\<rparr>) ts c = getTLS_loop ns cl ts c"
  by (induction ts arbitrary: c) (simp_all add: Let_def split_beta split: sum.splits option.splits)

lemma updateIngressStatus_GetIngresses [simp]:
  "updateIngressStatus p i (cl\<lparr>GetIngresses := x\<rparr>) = updateIngressStatus p i cl"
  by (simp add: updateIngressStatus_def split: sum.splits option.splits list.splits)

lemma loadPath_GetIngresses [simp]:
  "loadPath U (cl\<lparr>GetIngresses := x\<rparr>) = loadPath U cl"
  by (simp add: fun_eq_iff loadPath_def split: sum.splits option.splits)

lemma loadRules_GetIngresses [simp]:
  "loadRules U p (cl\<lparr>GetIngresses := x\<rparr>) ing s rules = loadRules U p cl ing s rules"
  by (induction rules arbitrary: s) (simp_all add: Let_def split: sum.splits option.splits)

lemma loadDefaultBackend_GetIngresses [simp]:
  "loadDefaultBackend (cl\<lparr>GetIngresses := x\<rparr>) = loadDefaultBackend cl"
  by (simp add: fun_eq_iff loadDefaultBackend_def split: sum.splits option.splits)

lemma loadIngress_GetIngresses [simp]:
  "loadIngress U p (cl\<lparr>GetIngresses := x\<rparr>) = loadIngress U p cl"
  by (simp add: fun_eq_iff loadIngress_def getTLS_def split_beta Let_def)

lemma loadIngresses_GetIngresses [simp]:
  "loadIngresses U p (cl\<lparr>GetIngresses := x\<rparr>) s ings = loadIngresses U p cl s ings"
  by (induction ings arbitrary: s) (simp_all split: sum.splits)

section \<open>The certificate list\<close>













lemma certificateOf_GetIngresses [simp]:
  "certificateOf (cl\<lparr>GetIngresses := ings\<rparr>) = certificateOf cl"
  by (simp add: certificateOf_def fun_eq_iff)

lemma tlsEntry_GetIngresses [simp]:
  "tlsEntry (cl\<lparr>GetIngresses := ings\<rparr>) = tlsEntry cl"
  by (simp add: tlsEntry_def fun_eq_iff)




lemma getTLS_loop_unresolved:
  assumes "SecretName t \<noteq> []" "map_of c (ns @ ''/'' @ SecretName t) = None"
    "certificateOf cl ns (SecretName t) = None"
  shows "fst (getTLS_loop ns cl (t # ts) c) \<noteq> None \<and> fst (snd (getTLS_loop ns cl (t # ts) c)) = c \<and>
         getTLS_loop ns cl (t # ts) c = getTLS_loop ns cl [t] c"
  using assms by (auto simp: certificateOf_def split: sum.splits option.splits)













lemma ex_certs:
  "certificateOf (exClient ings) ''default'' ''a-secret'' = Some exCertA"
  "certificateOf (exClient ings) ''default'' ''b-secret'' = Some exCertB"
  by (simp_all add: certificateOf_def ex_defs getCertificateBlocks_def lookup_string_def exCertA_def exCertB_def)











section \<open>Routers and services do not depend on TLS sections or on status reconciliation\<close>

lemma sameHTTP_emit [simp]: "sameHTTP (emit s evs) t = sameHTTP s t" "sameHTTP s (emit t evs) = sameHTTP s t"
  by (simp_all add: sameHTTP_def)

lemma sameHTTP_tlsCache [simp]:
  "sameHTTP (s\<lparr>tlsCache := c\<rparr>) t = sameHTTP s t" "sameHTTP s (t\<lparr>tlsCache := c\<rparr>) = sameHTTP s t"
  by (simp_all add: sameHTTP_def)

lemma loadPath_sameHTTP:
  "sameHTTP s t \<Longrightarrow> Namespace ing' = Namespace ing \<Longrightarrow>
   sameHTTP (loadPath U cl ing rule s x) (loadPath U cl ing' rule t x)"
  by (auto simp: loadPath_def Let_def sameHTTP_def split: sum.splits option.splits)

lemma foldl_loadPath_sameHTTP:
  "sameHTTP s t \<Longrightarrow> Namespace ing' = Namespace ing \<Longrightarrow>
   sameHTTP (foldl (loadPath U cl ing rule) s xs) (foldl (loadPath U cl ing' rule) t xs)"
  by (induction xs arbitrary: s t) (simp_all add: loadPath_sameHTTP)

lemma updateIngressStatus_cases:
  assumes "Namespace ing' = Namespace ing" "Name ing' = Name ing"
    and "IngressEndpoint p' = IngressEndpoint p \<or> IngressEndpoint p' = None"
  shows "updateIngressStatus p' ing' cl = updateIngressStatus p ing cl \<or>
         updateIngressStatus p' ing' cl = Inr (None, [])"
proof -
  have "updateIngressStatus p' ing' cl = updateIngressStatus p ing cl"
    if "IngressEndpoint p' = IngressEndpoint p"
    unfolding updateIngressStatus_def that assms(1,2) by (rule refl)
  moreover have "updateIngressStatus p' ing' cl = Inr (None, [])" if "IngressEndpoint p' = None"
    using that by (simp add: updateIngressStatus_def)
  ultimately show ?thesis using assms(3) by auto
qed

lemma loadRules_sameHTTP:
  assumes "loadRules U p cl ing s rules = Inr s'" "sameHTTP s t"
    and "Namespace ing' = Namespace ing" "Name ing' = Name ing"
    and "IngressEndpoint p' = IngressEndpoint p \<or> IngressEndpoint p' = None"
  shows "\<exists>t'. loadRules U p' cl ing' t rules = Inr t' \<and> sameHTTP s' t'"
  using assms(1,2)
proof (induction rules arbitrary: s t)
  case Nil
  then show ?case by simp
next
  case (Cons rule rules)
  show ?case
  proof (cases "checkStringQuoteValidity U (Host rule)")
    case (Some e)
    with Cons.prems show ?thesis
      by (auto intro!: Cons.IH)
  next
    case None
    with Cons.prems(1) obtain paths where paths: "HTTP rule = Some paths"
      by (cases "HTTP rule") auto
    from Cons.prems(1) None paths obtain err evs where u: "updateIngressStatus p ing cl = Inr (err, evs)"
      by (cases "updateIngressStatus p ing cl") (auto simp: Let_def)
    from updateIngressStatus_cases [OF assms(3,4,5), of cl] u
    obtain err' evs' where u': "updateIngressStatus p' ing' cl = Inr (err', evs')" by auto
    let ?s1 = "foldl (loadPath U cl ing rule) s paths" and ?t1 = "foldl (loadPath U cl ing' rule) t paths"
    have r: "sameHTTP ?s1 ?t1"
      by (rule foldl_loadPath_sameHTTP [OF Cons.prems(2) assms(3)])
    from Cons.prems(1) None paths u
    have run: "loadRules U p cl ing
        (emit (emit ?s1 [StatusReconcile (Namespace ing) (Name ing)])
           (evs @ (case err of None \<Rightarrow> [] | Some e \<Rightarrow> [Log (ErrorWhileUpdatingIngressStatus e)]))) rules = Inr s'"
      by (simp add: Let_def)
    from Cons.IH [OF run, of "emit (emit ?t1 [StatusReconcile (Namespace ing') (Name ing')])
           (evs' @ (case err' of None \<Rightarrow> [] | Some e \<Rightarrow> [Log (ErrorWhileUpdatingIngressStatus e)]))"] r
    show ?thesis
      using None paths u' by (simp add: Let_def)
  qed
qed

lemma loadDefaultBackend_sameHTTP:
  assumes "sameHTTP s t" "Namespace ing' = Namespace ing" "SpecRules ing' = SpecRules ing"
    "SpecBackend ing' = SpecBackend ing"
  shows "sameHTTP (fst (loadDefaultBackend cl ing s)) (fst (loadDefaultBackend cl ing' t)) \<and>
         snd (loadDefaultBackend cl ing s) = snd (loadDefaultBackend cl ing' t)"
  using assms by (auto simp: loadDefaultBackend_def sameHTTP_def split: option.splits sum.splits)

lemma loadIngress_sameHTTP:
  assumes run: "loadIngress U p cl s ing = Inr s'" and r: "sameHTTP s t"
    and same: "sameButTLS ing ing'"
    and p': "IngressClass p' = IngressClass p" "IngressEndpoint p' = IngressEndpoint p \<or> IngressEndpoint p' = None"
  shows "\<exists>t'. loadIngress U p' cl t ing' = Inr t' \<and> sameHTTP s' t'"
proof (cases "shouldProcessIngress (IngressClass p) (lookup_string (Annotations ing) annotationKubernetesIngressClass)")
  case False
  with run r same p' show ?thesis by (simp add: loadIngress_def sameButTLS_def)
next
  case True
  from same have f: "Name ing' = Name ing" "Namespace ing' = Namespace ing" "Annotations ing' = Annotations ing"
    "SpecBackend ing' = SpecBackend ing" "SpecRules ing' = SpecRules ing"
    by (simp_all add: sameButTLS_def)
  obtain err c evs where g: "getTLS ing cl (tlsCache s) = (err, c, evs)"
    by (cases "getTLS ing cl (tlsCache s)") auto
  obtain err' c' evs' where g': "getTLS ing' cl (tlsCache t) = (err', c', evs')"
    by (cases "getTLS ing' cl (tlsCache t)") auto
  define s1 where "s1 = emit (s\<lparr>tlsCache := c\<rparr>)
      (evs @ (case err of None \<Rightarrow> [] | Some e \<Rightarrow> [Log (ErrorConfiguringTLS e)]))"
  define t1 where "t1 = emit (t\<lparr>tlsCache := c'\<rparr>)
      (evs' @ (case err' of None \<Rightarrow> [] | Some e \<Rightarrow> [Log (ErrorConfiguringTLS e)]))"
  have r1: "sameHTTP s1 t1" using r by (simp add: s1_def t1_def)
  obtain s2 cont where d: "loadDefaultBackend cl ing s1 = (s2, cont)"
    by (cases "loadDefaultBackend cl ing s1") auto
  obtain t2 cont' where d': "loadDefaultBackend cl ing' t1 = (t2, cont')"
    by (cases "loadDefaultBackend cl ing' t1") auto
  from loadDefaultBackend_sameHTTP [OF r1 f(2) f(5) f(4), of cl, unfolded d d']
  have r2: "sameHTTP s2 t2" and c: "cont' = cont" by simp_all
  from run True g d have s': "(cont \<and> s' = s2) \<or> (\<not> cont \<and> loadRules U p cl ing s2 (SpecRules ing) = Inr s')"
    by (auto simp: loadIngress_def s1_def Let_def split: if_splits)
  have t: "loadIngress U p' cl t ing' = (if cont then Inr t2 else loadRules U p' cl ing' t2 (SpecRules ing))"
    using True g' d' c f p' by (simp add: loadIngress_def t1_def Let_def)
  from s' show ?thesis
  proof
    assume "cont \<and> s' = s2"
    with t r2 show ?thesis by simp
  next
    assume a: "\<not> cont \<and> loadRules U p cl ing s2 (SpecRules ing) = Inr s'"
    from loadRules_sameHTTP [OF conjunct2 [OF a] r2 f(2) f(1) p'(2)] t a show ?thesis by simp
  qed
qed

lemma loadIngresses_sameHTTP:
  assumes "loadIngresses U p cl s ings = Inr s'" "sameHTTP s t" "list_all2 sameButTLS ings ings'"
    and "IngressClass p' = IngressClass p" "IngressEndpoint p' = IngressEndpoint p \<or> IngressEndpoint p' = None"
  shows "\<exists>t'. loadIngresses U p' cl t ings' = Inr t' \<and> sameHTTP s' t'"
  using assms(3,1,2)
proof (induction ings ings' arbitrary: s t rule: list_all2_induct)
  case Nil
  then show ?case by simp
next
  case (Cons i ings i' ings')
  from Cons.prems(1) obtain s1 where s1: "loadIngress U p cl s i = Inr s1"
    and rest: "loadIngresses U p cl s1 ings = Inr s'"
    by (auto split: sum.splits)
  from loadIngress_sameHTTP [OF s1 Cons.prems(2) Cons.hyps(1) assms(4,5)]
  obtain t1 where t1: "loadIngress U p' cl t i' = Inr t1" "sameHTTP s1 t1" by blast
  from Cons.IH [OF rest t1(2)] t1(1) show ?case by simp
qed

lemma getTLS_loop_append_error:
  "fst (getTLS_loop ns cl pre c) \<noteq> None \<Longrightarrow> getTLS_loop ns cl (pre @ ts) c = getTLS_loop ns cl pre c"
  by (induction pre arbitrary: c) (auto simp: Let_def split_beta split: sum.splits option.splits)

lemma getTLS_loop_append_ok:
  "fst (getTLS_loop ns cl pre c) = None \<Longrightarrow>
   getTLS_loop ns cl (pre @ ts) c =
     (case getTLS_loop ns cl ts (fst (snd (getTLS_loop ns cl pre c))) of
        (err, c', evs) \<Rightarrow> (err, c', snd (snd (getTLS_loop ns cl pre c)) @ evs))"
  by (induction pre arbitrary: c) (auto simp: Let_def split_beta split: sum.splits option.splits)

lemma loadConfiguration_sameHTTP:
  assumes "loadConfigurationFromIngresses U p cl = Inr (conf, evs)"
    and "list_all2 sameButTLS (GetIngresses cl) ingresses'"
    and "IngressClass p' = IngressClass p" "IngressEndpoint p' = IngressEndpoint p \<or> IngressEndpoint p' = None"
  shows "\<exists>conf' evs'.
     loadConfigurationFromIngresses U p' (cl\<lparr>GetIngresses := ingresses'\<rparr>) = Inr (conf', evs') \<and>
     HTTPRouters conf' = HTTPRouters conf \<and> HTTPServices conf' = HTTPServices conf"
proof -
  from assms(1) obtain s where s: "loadIngresses U p cl emptyTranslation (GetIngresses cl) = Inr s"
    and conf: "HTTPRouters conf = Routers s" "HTTPServices conf = Services s"
    by (auto simp: loadConfigurationFromIngresses_def Let_def split: sum.splits)
  from loadIngresses_sameHTTP [OF s _ assms(2,3,4), of emptyTranslation]
  obtain t where "loadIngresses U p' cl emptyTranslation ingresses' = Inr t" "sameHTTP s t"
    by (auto simp: sameHTTP_def)
  with conf show ?thesis
    by (simp add: loadConfigurationFromIngresses_def Let_def sameHTTP_def)
qed

lemma Itoa_80: "Itoa 80 = ''80''"
  by (simp add: Itoa_def nat_digits.simps)

lemma ex_loadService_web:
  "loadService (exClient ings) ''default'' (exBackend ''web'' 80) = Inr exWebService"
  by (simp add: loadService_def ex_defs ServiceTypeExternalName_def HasPrefix_def Itoa_8080 exWebService_def)

lemma ex_serviceKey_web: "serviceKey ''default'' (exBackend ''web'' 80) = ''default/web/80''"
  by (simp add: serviceKey_def exBackend_def IntOrString_String_def Itoa_80 ReplaceAll_def)

lemma ex_quote_ok:
  "checkStringQuoteValidity exUnquote ''example.com'' = None"
  "checkStringQuoteValidity exUnquote ''/'' = None"
  by (simp_all add: checkStringQuoteValidity_def exUnquote_def)

lemma ex_loadPath_web:
  "Namespace ing = ''default'' \<Longrightarrow>
   loadPath exUnquote (exClient ings) ing \<lparr>Host = ''example.com'', HTTP = h\<rparr> s
     \<lparr>Path = ''/'', Backend = exBackend ''web'' 80\<rparr> =
   s\<lparr>Routers := (Routers s)(''example-com/'' \<mapsto> exWebRouter),
     Services := (Services s)(''default/web/80'' \<mapsto> exWebService)\<rparr>"
  by (simp add: loadPath_def ex_loadService_web ex_quote_ok ex_serviceKey_web ReplaceAll_def exWebRouter_def
      Let_def)

lemma ex_updateIngressStatus:
  "updateIngressStatus exProvider ing (exClient ings) =
     Inr (None, [UpdateIngressStatusCall (Namespace ing) (Name ing) ''192.0.2.1'' []])"
  by (simp add: updateIngressStatus_def exProvider_def exClient_def)

lemma ex_loadRules_web:
  "Namespace ing = ''default'' \<Longrightarrow>
   loadRules exUnquote exProvider (exClient ings) ing s [exRule ''example.com'' ''/''] =
   Inr (s\<lparr>Routers := (Routers s)(''example-com/'' \<mapsto> exWebRouter),
          Services := (Services s)(''default/web/80'' \<mapsto> exWebService),
          trace := trace s @ [StatusReconcile ''default'' (Name ing),
                              UpdateIngressStatusCall ''default'' (Name ing) ''192.0.2.1'' []]\<rparr>)"
  by (simp add: exRule_def ex_quote_ok ex_loadPath_web ex_updateIngressStatus emit_def Let_def)

lemma ex_getTLS_missing:
  "getTLS (exTLSRuleIngress [\<lparr>SecretName = ''missing''\<rparr>, \<lparr>SecretName = ''a-secret''\<rparr>]) (exClient ings) [] =
     (Some (SecretDoesNotExist ''default'' ''missing''), [], [GetSecretCall ''default'' ''missing''])"
  by (simp add: getTLS_def exTLSRuleIngress_def ex_defs)

lemma ex_run_missing:
  "loadConfigurationFromIngresses exUnquote exProvider
     (exClient [exTLSRuleIngress [\<lparr>SecretName = ''missing''\<rparr>, \<lparr>SecretName = ''a-secret''\<rparr>]]) =
   Inr (\<lparr>HTTPRouters = [''example-com/'' \<mapsto> exWebRouter],
          HTTPServices = [''default/web/80'' \<mapsto> exWebService], TLS = None\<rparr>,
        [GetSecretCall ''default'' ''missing'',
         Log (ErrorConfiguringTLS (SecretDoesNotExist ''default'' ''missing'')),
         StatusReconcile ''default'' ''a'',
         UpdateIngressStatusCall ''default'' ''a'' ''192.0.2.1'' []])"
proof -
  let ?i = "exTLSRuleIngress [\<lparr>SecretName = ''missing''\<rparr>, \<lparr>SecretName = ''a-secret''\<rparr>]"
  have i: "Namespace ?i = ''default''" "Name ?i = ''a''" "SpecRules ?i = [exRule ''example.com'' ''/'']"
    "SpecBackend ?i = None" "Annotations ?i = Map.empty"
    by (simp_all add: exTLSRuleIngress_def exIngress_def)
  have p: "IngressClass exProvider = []" by (simp add: exProvider_def)
  have c: "GetIngresses (exClient [?i]) = [?i]" by (simp add: exClient_def)
  show ?thesis
    by (simp add: loadConfigurationFromIngresses_def loadIngress_def ex_getTLS_missing i p c
        shouldProcessIngress_def lookup_string_def loadDefaultBackend_def ex_loadRules_web emit_def
        emptyTranslation_def getTLSConfig_def secretNames_def Let_def
        del: loadRules.simps)
qed

text \<open>
  C5 (as amended). \<^verbatim>\<open>getTLS\<close> returns at the first TLS section whose secret does not
  resolve: the map keeps the entries of the sections before it, nothing is added for the
  failing section, and the sections after it are not looked at. The caller only logs the
  error, and the TLS sections have no influence on the rest of the run: two snapshots that
  differ only in the TLS sections of their ingresses both complete or both panic, and
  when they complete they give the same routers and the same services.
\<close>

theorem getTLS_failure_confined:
  "(SecretName t \<noteq> [] \<and> map_of tlsConfigs (namespace @ ''/'' @ SecretName t) = None \<and>
    certificateOf k8sClient namespace (SecretName t) = None
    \<longrightarrow> fst (getTLS_loop namespace k8sClient (t # ts) tlsConfigs) \<noteq> None \<and>
        fst (snd (getTLS_loop namespace k8sClient (t # ts) tlsConfigs)) = tlsConfigs \<and>
        getTLS_loop namespace k8sClient (t # ts) tlsConfigs = getTLS_loop namespace k8sClient [t] tlsConfigs) \<and>
   (fst (getTLS_loop namespace k8sClient failing tlsConfigs) \<noteq> None
    \<longrightarrow> getTLS_loop namespace k8sClient (failing @ ts) tlsConfigs =
        getTLS_loop namespace k8sClient failing tlsConfigs) \<and>
   (fst (getTLS_loop namespace k8sClient passing tlsConfigs) = None
    \<longrightarrow> getTLS_loop namespace k8sClient (passing @ ts) tlsConfigs =
        (case getTLS_loop namespace k8sClient ts
                (fst (snd (getTLS_loop namespace k8sClient passing tlsConfigs))) of
           (err, tlsConfigs', evs) \<Rightarrow>
             (err, tlsConfigs', snd (snd (getTLS_loop namespace k8sClient passing tlsConfigs)) @ evs))) \<and>
   (loadConfigurationFromIngresses Unquote p client = Inr (conf, trc) \<and>
    list_all2 sameButTLS (GetIngresses client) ingresses'
    \<longrightarrow> (\<exists>conf' trc'.
          loadConfigurationFromIngresses Unquote p (client\<lparr>GetIngresses := ingresses'\<rparr>) = Inr (conf', trc') \<and>
          HTTPRouters conf' = HTTPRouters conf \<and> HTTPServices conf' = HTTPServices conf))"
  using getTLS_loop_unresolved [of t tlsConfigs namespace k8sClient ts]
    getTLS_loop_append_error [of namespace k8sClient failing tlsConfigs ts]
    getTLS_loop_append_ok [of namespace k8sClient passing tlsConfigs ts]
    loadConfiguration_sameHTTP [of Unquote p client conf trc ingresses' p]
  by blast

theorem getTLS_failure_confined_witness:
  "fst (getTLS_loop ''default'' (exClient []) [\<lparr>SecretName = ''missing''\<rparr>, \<lparr>SecretName = ''a-secret''\<rparr>] []) \<noteq> None \<and>
   fst (snd (getTLS_loop ''default'' (exClient []) [\<lparr>SecretName = ''missing''\<rparr>, \<lparr>SecretName = ''a-secret''\<rparr>] [])) = [] \<and>
   getTLS_loop ''default'' (exClient []) [\<lparr>SecretName = ''missing''\<rparr>, \<lparr>SecretName = ''a-secret''\<rparr>] [] =
     getTLS_loop ''default'' (exClient []) [\<lparr>SecretName = ''missing''\<rparr>] [] \<and>
   getTLS_loop ''default'' (exClient []) [\<lparr>SecretName = ''a-secret''\<rparr>, \<lparr>SecretName = ''missing''\<rparr>] [] =
     (Some (SecretDoesNotExist ''default'' ''missing''), [(''default/a-secret'', exCertA)],
      [GetSecretCall ''default'' ''a-secret'', GetSecretCall ''default'' ''missing'']) \<and>
   (\<exists>conf' trc'.
      loadConfigurationFromIngresses exUnquote exProvider (exClient [exTLSRuleIngress []]) = Inr (conf', trc') \<and>
      HTTPRouters conf' = [''example-com/'' \<mapsto> exWebRouter] \<and>
      HTTPServices conf' = [''default/web/80'' \<mapsto> exWebService])"
proof -
  let ?m = "\<lparr>SecretName = ''missing''\<rparr>" and ?a = "\<lparr>SecretName = ''a-secret''\<rparr>"
  let ?cl = "exClient [exTLSRuleIngress [?m, ?a]]"
  have h1: "SecretName ?m \<noteq> [] \<and> map_of [] (''default'' @ ''/'' @ SecretName ?m) = None \<and>
      certificateOf (exClient []) ''default'' (SecretName ?m) = None"
    by (simp add: certificateOf_def ex_defs)
  have h2: "fst (getTLS_loop ''default'' (exClient []) [?m] []) \<noteq> None"
    by (simp add: ex_defs)
  have h3: "fst (getTLS_loop ''default'' (exClient []) [?a] []) = None"
    by (simp add: ex_defs getCertificateBlocks_def lookup_string_def)
  have h4: "list_all2 sameButTLS (GetIngresses ?cl) [exTLSRuleIngress []]"
    by (simp add: exClient_def sameButTLS_def exTLSRuleIngress_def exIngress_def)
  have c: "?cl\<lparr>GetIngresses := [exTLSRuleIngress []]\<rparr> = exClient [exTLSRuleIngress []]"
    by (simp add: exClient_def)
  note T = getTLS_failure_confined [of ?m "[]" "''default''" "exClient []" "[?a]" "[?m]" "[?a]"
      exUnquote exProvider ?cl _ _ "[exTLSRuleIngress []]"]
  note T' = getTLS_failure_confined [of ?m "[]" "''default''" "exClient []" "[?m]" "[?m]" "[?a]"
      exUnquote exProvider ?cl _ _ "[exTLSRuleIngress []]"]
  from mp [OF conjunct1 [OF T] h1]
  have c1: "fst (getTLS_loop ''default'' (exClient []) [?m, ?a] []) \<noteq> None"
    "fst (snd (getTLS_loop ''default'' (exClient []) [?m, ?a] [])) = []"
    by blast+
  from mp [OF conjunct1 [OF conjunct2 [OF T]] h2]
  have c2: "getTLS_loop ''default'' (exClient []) [?m, ?a] [] = getTLS_loop ''default'' (exClient []) [?m] []"
    by (simp del: getTLS_loop.simps)
  from mp [OF conjunct1 [OF conjunct2 [OF conjunct2 [OF T']]] h3]
  have c3: "getTLS_loop ''default'' (exClient []) [?a, ?m] [] =
     (Some (SecretDoesNotExist ''default'' ''missing''), [(''default/a-secret'', exCertA)],
      [GetSecretCall ''default'' ''a-secret'', GetSecretCall ''default'' ''missing''])"
    by (simp add: ex_defs getCertificateBlocks_def lookup_string_def exCertA_def)
  from mp [OF conjunct2 [OF conjunct2 [OF conjunct2 [OF T]]] conjI [OF ex_run_missing h4]]
  have c4: "\<exists>conf' trc'.
      loadConfigurationFromIngresses exUnquote exProvider (exClient [exTLSRuleIngress []]) = Inr (conf', trc') \<and>
      HTTPRouters conf' = [''example-com/'' \<mapsto> exWebRouter] \<and>
      HTTPServices conf' = [''default/web/80'' \<mapsto> exWebService]"
    unfolding c by simp
  from c1 c2 c3 c4 show ?thesis by blast
qed

text \<open>
  The claim as stated fails: the first TLS section names a secret that does not exist,
  the second one a secret that resolves; \<^verbatim>\<open>getTLS\<close> returns at the first section, so
  the second one is neither fetched nor stored and the configuration has no certificate.
\<close>

theorem getTLS_returns_at_first_failure:
  "certificateOf (exClient []) ''default'' ''a-secret'' = Some exCertA \<and>
   getTLS (exTLSRuleIngress [\<lparr>SecretName = ''missing''\<rparr>, \<lparr>SecretName = ''a-secret''\<rparr>]) (exClient []) [] =
     (Some (SecretDoesNotExist ''default'' ''missing''), [], [GetSecretCall ''default'' ''missing'']) \<and>
   loadConfigurationFromIngresses exUnquote exProvider
     (exClient [exTLSRuleIngress [\<lparr>SecretName = ''missing''\<rparr>, \<lparr>SecretName = ''a-secret''\<rparr>]]) =
   Inr (\<lparr>HTTPRouters = [''example-com/'' \<mapsto> exWebRouter],
          HTTPServices = [''default/web/80'' \<mapsto> exWebService], TLS = None\<rparr>,
        [GetSecretCall ''default'' ''missing'',
         Log (ErrorConfiguringTLS (SecretDoesNotExist ''default'' ''missing'')),
         StatusReconcile ''default'' ''a'',
         UpdateIngressStatusCall ''default'' ''a'' ''192.0.2.1'' []])"
  using ex_certs(1) [of "[]"] ex_getTLS_missing [of "[]"] ex_run_missing by simp

section \<open>Invocations of the status reconciler\<close>



lemma statusReconciles_append [simp]:
  "statusReconciles (xs @ ys) = statusReconciles xs @ statusReconciles ys"
  by (induction xs rule: statusReconciles.induct) simp_all



lemma statusReconciles_loadPath [simp]:
  "statusReconciles (trace (loadPath U cl ing rule s x)) = statusReconciles (trace s)"
  by (simp add: loadPath_def Let_def split: sum.splits option.splits)

lemma statusReconciles_foldl_loadPath [simp]:
  "statusReconciles (trace (foldl (loadPath U cl ing rule) s xs)) = statusReconciles (trace s)"
  by (induction xs arbitrary: s) simp_all















section \<open>Service keys\<close>

lemma digit_char:
  assumes "d < 10"
  shows "of_char (''0123456789'' ! d) = (48 + d :: nat)"
proof -
  from assms have "d = 0 \<or> d = 1 \<or> d = 2 \<or> d = 3 \<or> d = 4 \<or> d = 5 \<or> d = 6 \<or> d = 7 \<or> d = 8 \<or> d = 9"
    by arith
  then show ?thesis by (elim disjE) simp_all
qed

lemma digit_in: "d < 10 \<Longrightarrow> ''0123456789'' ! d \<in> set ''0123456789''"
  by (rule nth_mem) simp

lemma nat_digits_set: "set (nat_digits n) \<subseteq> set ''0123456789''"
proof (induction n rule: nat_digits.induct)
  case (1 n)
  show ?case
  proof (cases "n < 10")
    case True
    then show ?thesis using digit_in [of n] by (subst nat_digits.simps) simp
  next
    case False
    then show ?thesis
      using 1 digit_in [of "n mod 10"] by (subst nat_digits.simps) simp
  qed
qed

lemma nat_digits_value:
  "foldl (\<lambda>a c. a * 10 + (of_char c - 48)) 0 (nat_digits n) = n"
proof (induction n rule: nat_digits.induct)
  case (1 n)
  show ?case
  proof (cases "n < 10")
    case True
    then show ?thesis by (subst nat_digits.simps) (simp add: digit_char)
  next
    case False
    then show ?thesis
      using 1 by (subst nat_digits.simps) (simp add: digit_char)
  qed
qed

lemma nat_digits_inj: "nat_digits n = nat_digits m \<Longrightarrow> n = m"
  by (metis nat_digits_value)

lemma Itoa_no_dot: "CHR ''.'' \<notin> set (Itoa i)" and Itoa_no_slash: "CHR ''/'' \<notin> set (Itoa i)"
  using nat_digits_set [of "nat i"] nat_digits_set [of "nat (- i)"] by (auto simp: Itoa_def)

lemma nat_digits_no_minus: "CHR ''-'' \<notin> set (nat_digits n)"
  using nat_digits_set [of n] by auto

lemma nat_digits_hd: "nat_digits n \<noteq> CHR ''-'' # xs"
  using nat_digits_no_minus [of n] by auto

lemma Itoa_inj: "Itoa i = Itoa j \<Longrightarrow> i = j"
  using nat_digits_hd [of "nat i" "nat_digits (nat (- j))"] nat_digits_hd [of "nat j" "nat_digits (nat (- i))"]
  by (auto simp: Itoa_def split: if_splits dest!: nat_digits_inj)

lemma Itoa_sint_inj: "Itoa (sint (a :: int32)) = Itoa (sint b) \<Longrightarrow> a = b"
  by (auto dest!: Itoa_inj intro: signed_word_eqI)

lemma ReplaceAll_absent: "old \<notin> set s \<Longrightarrow> ReplaceAll s old new = s"
  by (induction s) (auto simp: ReplaceAll_def)

lemma ReplaceAll_append: "ReplaceAll (s @ t) old new = ReplaceAll s old new @ ReplaceAll t old new"
  by (simp add: ReplaceAll_def)

lemma serviceKey_append:
  "serviceKey ns b =
     ReplaceAll ns (CHR ''.'') (CHR ''-'') @ ''/'' @ ReplaceAll (ServiceName b) (CHR ''.'') (CHR ''-'') @ ''/'' @
     ReplaceAll (IntOrString_String (ServicePort b)) (CHR ''.'') (CHR ''-'')"
  by (simp add: serviceKey_def ReplaceAll_def)

lemma serviceKey_numeric_ports:
  assumes "Type (ServicePort b) = intstr_Int" "Type (ServicePort b') = intstr_Int"
    and "ServiceName b' = ServiceName b" "IntVal (ServicePort b) \<noteq> IntVal (ServicePort b')"
  shows "serviceKey ns b \<noteq> serviceKey ns b'"
proof
  assume "serviceKey ns b = serviceKey ns b'"
  with assms(1-3) have "Itoa (sint (IntVal (ServicePort b))) = Itoa (sint (IntVal (ServicePort b')))"
    by (simp add: serviceKey_append IntOrString_String_def ReplaceAll_absent Itoa_no_dot)
  with assms(4) show False by (auto dest: Itoa_sint_inj)
qed

lemma append_sep_eq:
  "x \<notin> set xs \<Longrightarrow> x \<notin> set xs' \<Longrightarrow> xs @ x # ys = xs' @ x # ys' \<Longrightarrow> xs = xs' \<and> ys = ys'"
proof (induction xs arbitrary: xs')
  case Nil
  then show ?case by (cases xs') auto
next
  case (Cons a xs)
  then show ?case by (cases xs') auto
qed

lemma serviceKey_inj:
  assumes dots: "CHR ''.'' \<notin> set ns" "CHR ''.'' \<notin> set ns'" "CHR ''.'' \<notin> set (ServiceName b)"
      "CHR ''.'' \<notin> set (ServiceName b')" "CHR ''.'' \<notin> set (IntOrString_String (ServicePort b))"
      "CHR ''.'' \<notin> set (IntOrString_String (ServicePort b'))"
    and slashes: "CHR ''/'' \<notin> set ns" "CHR ''/'' \<notin> set ns'" "CHR ''/'' \<notin> set (ServiceName b)"
      "CHR ''/'' \<notin> set (ServiceName b')"
    and eq: "serviceKey ns b = serviceKey ns' b'"
  shows "ns = ns' \<and> ServiceName b = ServiceName b' \<and>
         IntOrString_String (ServicePort b) = IntOrString_String (ServicePort b')"
proof -
  from eq dots have "ns @ CHR ''/'' # (ServiceName b @ CHR ''/'' # IntOrString_String (ServicePort b)) =
      ns' @ CHR ''/'' # (ServiceName b' @ CHR ''/'' # IntOrString_String (ServicePort b'))"
    by (simp add: serviceKey_append ReplaceAll_absent)
  then have "ns = ns' \<and>
      ServiceName b @ CHR ''/'' # IntOrString_String (ServicePort b) =
      ServiceName b' @ CHR ''/'' # IntOrString_String (ServicePort b')"
    by (rule append_sep_eq [OF slashes(1,2)])
  then have ns: "ns = ns'"
    and r: "ServiceName b @ CHR ''/'' # IntOrString_String (ServicePort b) =
            ServiceName b' @ CHR ''/'' # IntOrString_String (ServicePort b')"
    by simp_all
  from r have "ServiceName b = ServiceName b' \<and>
      IntOrString_String (ServicePort b) = IntOrString_String (ServicePort b')"
    by (rule append_sep_eq [OF slashes(3,4)])
  with ns show ?thesis by simp
qed

lemma IntOrString_String_inj:
  assumes "IntOrString_String v = IntOrString_String v'" "Type v = Type v'"
  shows "(Type v = intstr_Int \<longrightarrow> IntVal v = IntVal v') \<and> (Type v = intstr_String \<longrightarrow> StrVal v = StrVal v')"
  using assms by (cases "Type v") (auto simp: IntOrString_String_def dest: Itoa_sint_inj)

text \<open>
  C8 (as amended). Two numeric port selectors with different values on the same service
  of the same namespace never give the same service key. In general, when the namespaces
  and the service names contain neither \<^verbatim>\<open>.\<close> nor \<^verbatim>\<open>/\<close> and the printed port
  selectors contain no \<^verbatim>\<open>.\<close>, equal service keys come from equal namespaces, equal
  service names and equal printed port selectors, hence from equal port numbers when both
  selectors are numeric and from equal port names when both are names.
\<close>

theorem serviceKey_distinct:
  "(Type (ServicePort b) = intstr_Int \<and> Type (ServicePort b') = intstr_Int \<and>
    ServiceName b' = ServiceName b \<and> IntVal (ServicePort b) \<noteq> IntVal (ServicePort b')
    \<longrightarrow> serviceKey namespace b \<noteq> serviceKey namespace b') \<and>
   (CHR ''.'' \<notin> set namespace \<and> CHR ''.'' \<notin> set namespace' \<and>
    CHR ''.'' \<notin> set (ServiceName b) \<and> CHR ''.'' \<notin> set (ServiceName b') \<and>
    CHR ''.'' \<notin> set (IntOrString_String (ServicePort b)) \<and>
    CHR ''.'' \<notin> set (IntOrString_String (ServicePort b')) \<and>
    CHR ''/'' \<notin> set namespace \<and> CHR ''/'' \<notin> set namespace' \<and>
    CHR ''/'' \<notin> set (ServiceName b) \<and> CHR ''/'' \<notin> set (ServiceName b') \<and>
    serviceKey namespace b = serviceKey namespace' b'
    \<longrightarrow> namespace = namespace' \<and> ServiceName b = ServiceName b' \<and>
        IntOrString_String (ServicePort b) = IntOrString_String (ServicePort b') \<and>
        (Type (ServicePort b) = Type (ServicePort b') \<longrightarrow>
           (Type (ServicePort b) = intstr_Int \<longrightarrow> IntVal (ServicePort b) = IntVal (ServicePort b')) \<and>
           (Type (ServicePort b) = intstr_String \<longrightarrow> StrVal (ServicePort b) = StrVal (ServicePort b'))))"
proof -
  have "serviceKey namespace b \<noteq> serviceKey namespace b'"
    if "Type (ServicePort b) = intstr_Int" "Type (ServicePort b') = intstr_Int"
      "ServiceName b' = ServiceName b" "IntVal (ServicePort b) \<noteq> IntVal (ServicePort b')"
    using that by (rule serviceKey_numeric_ports)
  moreover have "namespace = namespace' \<and> ServiceName b = ServiceName b' \<and>
        IntOrString_String (ServicePort b) = IntOrString_String (ServicePort b') \<and>
        (Type (ServicePort b) = Type (ServicePort b') \<longrightarrow>
           (Type (ServicePort b) = intstr_Int \<longrightarrow> IntVal (ServicePort b) = IntVal (ServicePort b')) \<and>
           (Type (ServicePort b) = intstr_String \<longrightarrow> StrVal (ServicePort b) = StrVal (ServicePort b')))"
    if "CHR ''.'' \<notin> set namespace" "CHR ''.'' \<notin> set namespace'" "CHR ''.'' \<notin> set (ServiceName b)"
      "CHR ''.'' \<notin> set (ServiceName b')" "CHR ''.'' \<notin> set (IntOrString_String (ServicePort b))"
      "CHR ''.'' \<notin> set (IntOrString_String (ServicePort b'))"
      "CHR ''/'' \<notin> set namespace" "CHR ''/'' \<notin> set namespace'" "CHR ''/'' \<notin> set (ServiceName b)"
      "CHR ''/'' \<notin> set (ServiceName b')" "serviceKey namespace b = serviceKey namespace' b'"
    using serviceKey_inj [OF that] IntOrString_String_inj [of "ServicePort b" "ServicePort b'"]
    by blast
  ultimately show ?thesis by blast
qed

lemma Itoa_443: "Itoa 443 = ''443''"
  by (simp add: Itoa_def nat_digits.simps)

theorem serviceKey_distinct_witness:
  "serviceKey ''default'' (exBackend ''web'' 80) \<noteq> serviceKey ''default'' (exBackend ''web'' 443) \<and>
   serviceKey ''default'' (exBackend ''web'' 80) = ''default/web/80'' \<and>
   serviceKey ''default'' (exBackend ''web'' 443) = ''default/web/443'' \<and>
   serviceKey ''default'' exBackend80 = ''default/web/80'' \<and>
   IntVal (ServicePort (exBackend ''web'' 80)) = IntVal (ServicePort exBackend80)"
proof -
  have k: "serviceKey ''default'' (exBackend ''web'' 80) = ''default/web/80''"
    "serviceKey ''default'' (exBackend ''web'' 443) = ''default/web/443''"
    "serviceKey ''default'' exBackend80 = ''default/web/80''"
    by (simp_all add: serviceKey_def exBackend_def exBackend80_def IntOrString_String_def Itoa_80 Itoa_443
        ReplaceAll_def)
  have h: "Type (ServicePort (exBackend ''web'' 80)) = intstr_Int \<and>
      Type (ServicePort (exBackend ''web'' 443)) = intstr_Int \<and>
      ServiceName (exBackend ''web'' 443) = ServiceName (exBackend ''web'' 80) \<and>
      IntVal (ServicePort (exBackend ''web'' 80)) \<noteq> IntVal (ServicePort (exBackend ''web'' 443))"
    by (simp add: exBackend_def)
  have h2: "CHR ''.'' \<notin> set ''default'' \<and> CHR ''.'' \<notin> set ''default'' \<and>
    CHR ''.'' \<notin> set (ServiceName (exBackend ''web'' 80)) \<and> CHR ''.'' \<notin> set (ServiceName exBackend80) \<and>
    CHR ''.'' \<notin> set (IntOrString_String (ServicePort (exBackend ''web'' 80))) \<and>
    CHR ''.'' \<notin> set (IntOrString_String (ServicePort exBackend80)) \<and>
    CHR ''/'' \<notin> set ''default'' \<and> CHR ''/'' \<notin> set ''default'' \<and>
    CHR ''/'' \<notin> set (ServiceName (exBackend ''web'' 80)) \<and> CHR ''/'' \<notin> set (ServiceName exBackend80) \<and>
    serviceKey ''default'' (exBackend ''web'' 80) = serviceKey ''default'' exBackend80"
    unfolding k by (simp add: exBackend_def exBackend80_def IntOrString_String_def Itoa_80)
  have t: "Type (ServicePort (exBackend ''web'' 80)) = Type (ServicePort exBackend80)"
    "Type (ServicePort (exBackend ''web'' 80)) = intstr_Int"
    by (simp_all add: exBackend_def exBackend80_def)
  from mp [OF conjunct1 [OF serviceKey_distinct [of "exBackend ''web'' 80" "exBackend ''web'' 443" "''default''"]] h]
  have c1: "serviceKey ''default'' (exBackend ''web'' 80) \<noteq> serviceKey ''default'' (exBackend ''web'' 443)" .
  from mp [OF conjunct2 [OF serviceKey_distinct [of "exBackend ''web'' 80" exBackend80 "''default''" "''default''"]] h2] t
  have c2: "IntVal (ServicePort (exBackend ''web'' 80)) = IntVal (ServicePort exBackend80)"
    by blast
  from c1 c2 k show ?thesis by simp
qed

text \<open>
  The claim as stated fails: on the same service, the numeric selector 80 and the name
  \<^verbatim>\<open>80\<close> are two selectors with one key, and so are the names \<^verbatim>\<open>h.1\<close> and
  \<^verbatim>\<open>h-1\<close>, because each \<^verbatim>\<open>.\<close> becomes \<^verbatim>\<open>-\<close>.
\<close>

theorem serviceKey_collisions:
  "\<lparr>Type = intstr_Int, IntVal = 80, StrVal = []\<rparr> \<noteq> \<lparr>Type = intstr_String, IntVal = 0, StrVal = ''80''\<rparr> \<and>
   serviceKey ''default'' \<lparr>ServiceName = ''web'', ServicePort = \<lparr>Type = intstr_Int, IntVal = 80, StrVal = []\<rparr>\<rparr> =
   serviceKey ''default'' \<lparr>ServiceName = ''web'', ServicePort = \<lparr>Type = intstr_String, IntVal = 0, StrVal = ''80''\<rparr>\<rparr> \<and>
   \<lparr>Type = intstr_String, IntVal = 0, StrVal = ''h.1''\<rparr> \<noteq> \<lparr>Type = intstr_String, IntVal = 0, StrVal = ''h-1''\<rparr> \<and>
   serviceKey ''default'' \<lparr>ServiceName = ''web'', ServicePort = \<lparr>Type = intstr_String, IntVal = 0, StrVal = ''h.1''\<rparr>\<rparr> =
   serviceKey ''default'' \<lparr>ServiceName = ''web'', ServicePort = \<lparr>Type = intstr_String, IntVal = 0, StrVal = ''h-1''\<rparr>\<rparr>"
  by (simp add: serviceKey_def IntOrString_String_def Itoa_80 ReplaceAll_def)

section \<open>The default backend\<close>

lemma serviceKey_not_default: "serviceKey ns b \<noteq> ''default-backend''"
proof
  assume "serviceKey ns b = ''default-backend''"
  then have "set (serviceKey ns b) = set ''default-backend''" by simp
  moreover have "CHR ''/'' \<in> set (serviceKey ns b)"
    by (simp add: serviceKey_append)
  ultimately show False by simp
qed

lemma loadPath_default [simp]:
  "Services (loadPath U cl ing rule s x) ''default-backend'' = Services s ''default-backend''"
  using serviceKey_not_default [of "Namespace ing" "Backend x"]
  by (simp add: loadPath_def Let_def split: sum.splits option.splits)

lemma foldl_loadPath_default [simp]:
  "Services (foldl (loadPath U cl ing rule) s xs) ''default-backend'' = Services s ''default-backend''"
  by (induction xs arbitrary: s) simp_all

























end
